theory Spec2Isabelle
  imports Complex_Main "HOL-Library.Word"
begin

unbundle bit_operations_syntax

section \<open>Date and time values\<close>

text \<open>
  The calendar reads and writes its timestamps as ISO-8601 strings and computes on them
  with the luxon library. A timestamp string is stored in the model as the instant it
  denotes: an integer number of milliseconds of local wall-clock time counted from local
  midnight of 1970-01-01, in a zone whose offset from UTC is fixed. Parsing and printing
  are then the identity. An ISO date (\<open>YYYY-MM-DD\<close>) is the number of whole days
  counted from 1970-01-01. Block timestamps are assumed to parse; the anchor and the limit
  of a recurrence rule, whose validity the code tests, are values of \<open>DateTime\<close>.
\<close>

type_synonym iso = int
type_synonym isodate = int

datatype DateTime = DT int | Invalid

definition MS_PER_MINUTE :: int where
  "MS_PER_MINUTE = 60000"

definition MS_PER_DAY :: int where
  "MS_PER_DAY = 86400000"

definition toISODate :: "iso \<Rightarrow> isodate" where
  "toISODate t = t div MS_PER_DAY"

definition startOfDay :: "iso \<Rightarrow> iso" where
  "startOfDay t = t - t mod MS_PER_DAY"

definition endOfDay :: "iso \<Rightarrow> iso" where
  "endOfDay t = startOfDay t + (MS_PER_DAY - 1)"

definition hour :: "iso \<Rightarrow> int" where
  "hour t = (t mod MS_PER_DAY) div (60 * MS_PER_MINUTE)"

definition minute :: "iso \<Rightarrow> int" where
  "minute t = ((t mod MS_PER_DAY) div MS_PER_MINUTE) mod 60"

text \<open>Weekdays are numbered from Monday (1) to Sunday (7); 1970-01-01 was a Thursday.\<close>

definition weekday :: "iso \<Rightarrow> int" where
  "weekday t = (toISODate t + 3) mod 7 + 1"

definition startOfWeek :: "iso \<Rightarrow> iso" where
  "startOfWeek t = startOfDay t - (weekday t - 1) * MS_PER_DAY"

text \<open>
  \<open>a.diff(b, 'minutes').minutes\<close> is the distance in minutes as a fraction, and
  \<open>t.plus({minutes: m})\<close> adds \<open>m\<close> minutes of absolute time.
\<close>

definition diffMinutes :: "iso \<Rightarrow> iso \<Rightarrow> rat" where
  "diffMinutes a b = of_int (a - b) / of_int MS_PER_MINUTE"

definition plusMinutes :: "iso \<Rightarrow> rat \<Rightarrow> iso" where
  "plusMinutes t m = t + \<lfloor>m * of_int MS_PER_MINUTE\<rfloor>"

definition plusDays :: "iso \<Rightarrow> int \<Rightarrow> iso" where
  "plusDays t n = t + n * MS_PER_DAY"

text \<open>The day number of a calendar date of the proleptic Gregorian calendar.\<close>

definition daysFromCivil :: "int \<Rightarrow> int \<Rightarrow> int \<Rightarrow> isodate" where
  "daysFromCivil y m d =
     (let y' = (if m \<le> 2 then y - 1 else y);
          era = y' div 400;
          yoe = y' - era * 400;
          doy = (153 * (m + (if m > 2 then - 3 else 9)) + 2) div 5 + d - 1;
          doe = yoe * 365 + yoe div 4 - yoe div 100 + doy
      in era * 146097 + doe - 719468)"

definition fromISODate :: "isodate \<Rightarrow> iso" where
  "fromISODate d = d * MS_PER_DAY"

section \<open>Temporal utilities (schedule.ts)\<close>

definition SNAP_MIN :: int where
  "SNAP_MIN = 15"

definition MINUTES_PER_DAY :: int where
  "MINUTES_PER_DAY = 24 * 60"

definition minutesSinceMidnight :: "iso \<Rightarrow> int" where
  "minutesSinceMidnight dt = hour dt * 60 + minute dt"

definition clamp :: "int \<Rightarrow> int \<Rightarrow> int \<Rightarrow> int" where
  "clamp v lo hi = min hi (max lo v)"

definition isoForDayAndMinutes :: "iso \<Rightarrow> int \<Rightarrow> int \<Rightarrow> iso" where
  "isoForDayAndMinutes weekStartISO dayIndex minutes =
     (let d = startOfDay (plusDays weekStartISO dayIndex);
          mm = clamp minutes 0 MINUTES_PER_DAY
      in plusMinutes d (of_int mm))"

definition isoForDateAndMinutes :: "iso \<Rightarrow> int \<Rightarrow> iso" where
  "isoForDateAndMinutes dateISO minutes =
     (let d = startOfDay dateISO;
          mm = clamp minutes 0 MINUTES_PER_DAY
      in plusMinutes d (of_int mm))"

definition overlaps :: "int \<Rightarrow> int \<Rightarrow> int \<Rightarrow> int \<Rightarrow> bool" where
  "overlaps aStart aEnd bStart bEnd \<longleftrightarrow> max aStart bStart < min aEnd bEnd"

section \<open>Data model (data.ts)\<close>

text \<open>The statuses \<open>planned\<close>, \<open>in_progress\<close>, \<open>done\<close> and \<open>skipped\<close>.\<close>

datatype BlockStatus = Planned | InProgress | Done | Skipped

datatype RecurrenceType = Daily | Weekly

text \<open>
  A missing \<open>daysOfWeek\<close> or \<open>exceptions\<close> array is the empty list, which is how the
  code reads it; \<open>until\<close> is \<open>None\<close> when it is null, undefined or the empty string;
  \<open>startMinute\<close> is \<open>None\<close> when the stored value is null. The fields \<open>id\<close> and
  \<open>type\<close> of a rule are \<open>rid\<close> and \<open>rtype\<close>; the fields \<open>task_id\<close>,
  \<open>title\<close> and \<open>end\<close> of a block are \<open>b_task_id\<close>, \<open>b_title\<close> and \<open>end'\<close>.
\<close>

record BlockRecurrence =
  rid :: string
  rtype :: RecurrenceType
  interval :: int
  daysOfWeek :: "int list"
  startDate :: DateTime
  startMinute :: "int option"
  duration :: rat
  until :: "DateTime option"
  exceptions :: "isodate list"

record Block =
  block_id :: string
  b_task_id :: "string option"
  b_title :: "string option"
  notes_override :: "string option"
  start :: iso
  end' :: iso
  status :: BlockStatus
  rev :: int
  recurrence :: "BlockRecurrence option"

datatype error = NOT_FOUND_block | TypeError | SyntaxError

section \<open>Helpers for in-place updates\<close>

text \<open>
  \<open>blocks.find(p)\<close> yields a reference to the first element satisfying \<open>p\<close>; an
  assignment through that reference changes the element at that position of the array.
\<close>

fun findIndex :: "('a \<Rightarrow> bool) \<Rightarrow> 'a list \<Rightarrow> nat option" where
  "findIndex p [] = None"
| "findIndex p (x # xs) =
     (if p x then Some 0 else map_option Suc (findIndex p xs))"

section \<open>Recurrence rules (commands.ts)\<close>

text \<open>
  A comparison with an invalid luxon value is false, so an \<open>until\<close> that does not
  parse sets no limit and an invalid \<open>date\<close> reaches the final test, which fails. The
  remainder is taken only of a non-negative difference and a positive step, where the
  truncating remainder of the source and \<open>mod\<close> agree.
\<close>

definition shouldIncludeDate :: "BlockRecurrence \<Rightarrow> DateTime \<Rightarrow> bool" where
  "shouldIncludeDate rec date =
     (case startDate rec of
        Invalid \<Rightarrow> False
      | DT anchor \<Rightarrow>
          (case date of
             Invalid \<Rightarrow> False
           | DT d \<Rightarrow>
               if (case until rec of
                     Some (DT limit) \<Rightarrow> startOfDay d > endOfDay limit
                   | _ \<Rightarrow> False) then False
               else if d < anchor then False
               else if toISODate d \<in> set (exceptions rec) then False
               else if rtype rec = Daily then
                 (let diff = (startOfDay d - startOfDay anchor) div MS_PER_DAY
                  in diff \<ge> 0 \<and> diff mod max 1 (interval rec) = 0)
               else
                 (let days = (if daysOfWeek rec \<noteq> [] then daysOfWeek rec else [weekday anchor])
                  in if weekday d \<notin> set days then False
                     else
                       (let diffWeeks = (startOfWeek d - startOfWeek anchor) div (7 * MS_PER_DAY)
                        in diffWeeks \<ge> 0 \<and> diffWeeks mod max 1 (interval rec) = 0))))"

definition cloneRecurrence :: "BlockRecurrence option \<Rightarrow> BlockRecurrence option" where
  "cloneRecurrence rec =
     (case rec of
        None \<Rightarrow> None
      | Some r \<Rightarrow>
          Some \<lparr>rid = rid r, rtype = rtype r, interval = interval r,
                daysOfWeek = daysOfWeek r, startDate = startDate r,
                startMinute = startMinute r, duration = duration r,
                until = until r, exceptions = exceptions r\<rparr>)"

text \<open>
  \<open>setRecurrenceAnchor\<close> receives a luxon value. Of an invalid one the ISO date is null
  and the minute count is not a number, which the saved file holds as null.
\<close>

definition setRecurrenceAnchor :: "BlockRecurrence \<Rightarrow> DateTime \<Rightarrow> BlockRecurrence" where
  "setRecurrenceAnchor rec anchor =
     (case anchor of
        DT a \<Rightarrow> rec\<lparr>startDate := DT (fromISODate (toISODate a)),
                      startMinute := Some (hour a * 60 + minute a)\<rparr>
      | Invalid \<Rightarrow> rec\<lparr>startDate := Invalid, startMinute := None\<rparr>)"

section \<open>Interactive commands (commands.ts)\<close>

text \<open>
  Every interactive command first loads the block collection, changes it in memory and
  saves it. The functions below take the loaded collection and return the saved one.
\<close>

definition toggleBlockDone :: "string \<Rightarrow> Block list \<Rightarrow> error + (Block list \<times> BlockStatus)" where
  "toggleBlockDone bid blocks =
     (case findIndex (\<lambda>x. block_id x = bid) blocks of
        None \<Rightarrow> Inl NOT_FOUND_block
      | Some i \<Rightarrow>
          (let b = blocks ! i;
               b' = b\<lparr>status := (if status b = Done then Planned else Done)\<rparr>
           in Inr (blocks[i := b'], status b')))"

text \<open>\<open>other.recurrence?.id === recId\<close>, with \<open>recId\<close> a non-empty string.\<close>

definition hasRecId :: "string \<Rightarrow> Block \<Rightarrow> bool" where
  "hasRecId recId other =
     (case recurrence other of None \<Rightarrow> False | Some r \<Rightarrow> rid r = recId)"

text \<open>
  \<open>moveBlock\<close> changes the block found in place and then walks over the whole array,
  skipping every element that carries the moved id.
\<close>

definition moveBlock :: "string \<Rightarrow> iso \<Rightarrow> Block list \<Rightarrow> error + Block list" where
  "moveBlock bid newStartISO blocks =
     (case findIndex (\<lambda>x. block_id x = bid) blocks of
        None \<Rightarrow> Inl NOT_FOUND_block
      | Some i \<Rightarrow>
          (let b = blocks ! i;
               start0 = start b;
               dur = diffMinutes (end' b) start0;
               b1 = b\<lparr>start := newStartISO,
                      end' := plusMinutes newStartISO dur,
                      rev := rev b + 1\<rparr>
           in case recurrence b1 of
                None \<Rightarrow> Inr (blocks[i := b1])
              | Some r \<Rightarrow>
                  if rid r = [] then Inr (blocks[i := b1])
                  else
                    (let recId = rid r;
                         delta = diffMinutes newStartISO start0;
                         newDur = diffMinutes (end' b1) (start b1);
                         anchor =
                           (case startDate r of
                              Invalid \<Rightarrow> Invalid
                            | DT a \<Rightarrow>
                                DT (plusMinutes
                                      (plusMinutes a
                                         (case startMinute r of None \<Rightarrow> 0 | Some m \<Rightarrow> of_int m))
                                      delta));
                         r' = (setRecurrenceAnchor r anchor)\<lparr>duration := newDur\<rparr>;
                         b2 = b1\<lparr>recurrence := Some r'\<rparr>
                     in Inr (map (\<lambda>other.
                                if block_id other = bid then other
                                else if hasRecId recId other \<and> status other \<noteq> Done then
                                  other\<lparr>start := plusMinutes (start other) delta,
                                        end' := plusMinutes (end' other) delta,
                                        recurrence := cloneRecurrence (Some r'),
                                        rev := rev other + 1\<rparr>
                                else other)
                              (blocks[i := b2])))))"

definition resizeBlock :: "string \<Rightarrow> iso \<Rightarrow> Block list \<Rightarrow> error + Block list" where
  "resizeBlock bid newEndISO blocks =
     (case findIndex (\<lambda>x. block_id x = bid) blocks of
        None \<Rightarrow> Inl NOT_FOUND_block
      | Some i \<Rightarrow>
          (let b = blocks ! i;
               b1 = b\<lparr>end' := newEndISO, rev := rev b + 1\<rparr>
           in case recurrence b1 of
                None \<Rightarrow> Inr (blocks[i := b1])
              | Some r \<Rightarrow>
                  if rid r = [] then Inr (blocks[i := b1])
                  else
                    (let recId = rid r;
                         newDur = diffMinutes newEndISO (start b1);
                         r' = r\<lparr>duration := newDur\<rparr>;
                         b2 = b1\<lparr>recurrence := Some r'\<rparr>
                     in Inr (map (\<lambda>other.
                                if block_id other = bid then other
                                else if hasRecId recId other \<and> status other \<noteq> Done then
                                  other\<lparr>end' := plusMinutes (start other) newDur,
                                        recurrence := cloneRecurrence (Some r'),
                                        rev := rev other + 1\<rparr>
                                else other)
                              (blocks[i := b2])))))"

datatype scope = Single | Series

text \<open>\<open>blocks.splice(idx, 1)\<close> removes the element at \<open>idx\<close>.\<close>

definition splice1 :: "nat \<Rightarrow> 'a list \<Rightarrow> 'a list" where
  "splice1 idx xs = take idx xs @ drop (Suc idx) xs"

text \<open>
  In the branch for one occurrence of a series, the date is pushed onto the exceptions
  of the first remaining member, and every remaining member then receives a copy of that
  member's rule.
\<close>

definition deleteBlock :: "string \<Rightarrow> scope \<Rightarrow> Block list \<Rightarrow> error + Block list" where
  "deleteBlock bid sc blocks =
     (case findIndex (\<lambda>b. block_id b = bid) blocks of
        None \<Rightarrow> Inl NOT_FOUND_block
      | Some idx \<Rightarrow>
          (let blk = blocks ! idx;
               recId = (case recurrence blk of None \<Rightarrow> [] | Some r \<Rightarrow> rid r)
           in if sc = Series \<and> recId \<noteq> [] then
                Inr (filter (\<lambda>b. \<not> hasRecId recId b) blocks)
              else if recId \<noteq> [] then
                (let dateISO = toISODate (start blk);
                     blocks1 = splice1 idx blocks;
                     others = filter (hasRecId recId) blocks1
                 in case others of
                      [] \<Rightarrow> Inr blocks1
                    | o0 # _ \<Rightarrow>
                        (let rec =
                               (case recurrence o0 of
                                  None \<Rightarrow> None
                                | Some r0 \<Rightarrow>
                                    Some (if dateISO \<in> set (exceptions r0) then r0
                                          else r0\<lparr>exceptions := exceptions r0 @ [dateISO]\<rparr>))
                         in Inr (map (\<lambda>other.
                                    if hasRecId recId other then
                                      other\<lparr>recurrence :=
                                               cloneRecurrence
                                                 (case rec of None \<Rightarrow> recurrence other
                                                  | Some r1 \<Rightarrow> Some r1),
                                            rev := rev other + 1\<rparr>
                                    else other)
                                  blocks1)))
              else Inr (splice1 idx blocks)))"

section \<open>Command pipeline (commands.ts)\<close>

record ChecklistItem =
  item_id :: string
  item_text :: string
  item_done :: bool

text \<open>
  The task-level recurrence is a free-form object: a list of keys with the JSON text of
  their values.
\<close>

record Task =
  task_id :: string
  title :: string
  task_notes :: "string option"
  checklist :: "ChecklistItem list option"
  priority :: "int option"
  tags :: "string list option"
  created_at :: "iso option"
  updated_at :: "iso option"
  t_recurrence :: "(string \<times> string) list option"

record CreateTaskPayload =
  ct_task_id :: "string option"
  ct_title :: "string option"
  ct_notes :: "string option"
  ct_priority :: "int option"
  ct_tags :: "string list option"
  ct_recurrence :: "(string \<times> string) list option"
  ct_checklist :: "ChecklistItem list option"

record CreateBlockPayload =
  cb_block_id :: "string option"
  cb_task_id :: "string option"
  cb_title :: "string option"
  cb_start :: iso
  cb_end :: iso
  cb_recurrence :: "BlockRecurrence option"

text \<open>A patch names the fields it sets; \<open>None\<close> is an absent key.\<close>

record TaskPatch =
  p_task_id :: "string option"
  p_title :: "string option"
  p_notes :: "string option"
  p_checklist :: "ChecklistItem list option"
  p_priority :: "int option"
  p_tags :: "string list option"
  p_created_at :: "iso option"
  p_updated_at :: "iso option"
  p_recurrence :: "(string \<times> string) list option"

text \<open>
  The command of an envelope, by its type tag. \<open>unsupported t\<close> is any other tag
  \<open>t\<close>; \<open>malformed\<close> is an envelope on which reading the command type or the payload
  raises a TypeError.
\<close>

datatype command =
    create_task CreateTaskPayload
  | create_block CreateBlockPayload
  | move_block string iso
  | resize_block string iso
  | complete_block string
  | update_task string "TaskPatch option"
  | set_recurrence string string
  | unsupported string
  | malformed

record AICommandEnvelope =
  env_id :: "string option"
  actor :: string
  issued_at :: string
  command :: command

datatype effect =
    task_created string
  | block_created string
  | block_moved string iso iso
  | block_resized string iso
  | block_completed string
  | task_patched string
  | task_rrule string string

record ApplyResult =
  r_for :: "string option"
  ok :: bool
  r_error :: "string option"
  effects :: "effect list option"

text \<open>
  Fresh ids and the wall clock come from outside: \<open>nid env prefix k\<close> and
  \<open>clock env k\<close> are the id and the time that the \<open>k\<close>-th request of a run receives.
\<close>

record Env =
  nid :: "string \<Rightarrow> nat \<Rightarrow> string"
  clock :: "nat \<Rightarrow> iso"

record PState =
  st_tasks :: "Task list"
  st_blocks :: "Block list"
  st_out :: "ApplyResult list"
  st_tick :: nat

text \<open>The default title of a task, five CJK characters, as UTF-8 bytes.\<close>

definition DEFAULT_TASK_TITLE :: string where
  "DEFAULT_TASK_TITLE =
     map char_of [230, 156, 170, 229, 145, 189, 229, 144, 141, 228, 187, 187, 229, 138, 161 :: nat]"

definition assignTask :: "Task \<Rightarrow> TaskPatch \<Rightarrow> Task" where
  "assignTask tsk p =
     tsk\<lparr>task_id := (case p_task_id p of None \<Rightarrow> task_id tsk | Some v \<Rightarrow> v),
          title := (case p_title p of None \<Rightarrow> title tsk | Some v \<Rightarrow> v),
          task_notes := (case p_notes p of None \<Rightarrow> task_notes tsk | Some v \<Rightarrow> Some v),
          checklist := (case p_checklist p of None \<Rightarrow> checklist tsk | Some v \<Rightarrow> Some v),
          priority := (case p_priority p of None \<Rightarrow> priority tsk | Some v \<Rightarrow> Some v),
          tags := (case p_tags p of None \<Rightarrow> tags tsk | Some v \<Rightarrow> Some v),
          created_at := (case p_created_at p of None \<Rightarrow> created_at tsk | Some v \<Rightarrow> Some v),
          updated_at := (case p_updated_at p of None \<Rightarrow> updated_at tsk | Some v \<Rightarrow> Some v),
          t_recurrence :=
            (case p_recurrence p of None \<Rightarrow> t_recurrence tsk | Some v \<Rightarrow> Some v)\<rparr>"

text \<open>\<open>{...obj, key: v}\<close>: the key keeps its place when present and is appended otherwise.\<close>

fun setKey :: "string \<Rightarrow> 'v \<Rightarrow> (string \<times> 'v) list \<Rightarrow> (string \<times> 'v) list" where
  "setKey k v [] = [(k, v)]"
| "setKey k v ((k', v') # kvs) =
     (if k' = k then (k, v) # kvs else (k', v') # setKey k v kvs)"

definition okResult :: "string option \<Rightarrow> effect \<Rightarrow> ApplyResult" where
  "okResult cid eff = \<lparr>r_for = cid, ok = True, r_error = None, effects = Some [eff]\<rparr>"

definition push :: "ApplyResult \<Rightarrow> PState \<Rightarrow> PState" where
  "push r st = st\<lparr>st_out := st_out st @ [r]\<rparr>"

text \<open>
  The body of the \<open>try\<close> for one envelope. \<open>Inl msg\<close> is a raised exception with
  \<open>String(e) = msg\<close>; every \<open>throw\<close> comes before the first change of the branch.
\<close>

fun applyCommand :: "Env \<Rightarrow> string option \<Rightarrow> command \<Rightarrow> PState \<Rightarrow> string + PState" where
  "applyCommand env cid (create_task p) st =
     (let k = st_tick st;
          (new_id, k1) = (case ct_task_id p of Some v \<Rightarrow> (v, k) | None \<Rightarrow> (nid env ''tsk'' k, Suc k));
          tsk = \<lparr>task_id = new_id,
                 title = (case ct_title p of Some v \<Rightarrow> v | None \<Rightarrow> DEFAULT_TASK_TITLE),
                 task_notes = ct_notes p,
                 checklist = Some (case ct_checklist p of Some v \<Rightarrow> v | None \<Rightarrow> []),
                 priority = Some (case ct_priority p of Some v \<Rightarrow> v | None \<Rightarrow> 0),
                 tags = Some (case ct_tags p of Some v \<Rightarrow> v | None \<Rightarrow> []),
                 created_at = Some (clock env k1),
                 updated_at = Some (clock env (Suc k1)),
                 t_recurrence = ct_recurrence p\<rparr>
      in Inr (push (okResult cid (task_created new_id))
                (st\<lparr>st_tasks := st_tasks st @ [tsk], st_tick := Suc (Suc k1)\<rparr>)))"
| "applyCommand env cid (create_block p) st =
     (let k = st_tick st;
          (new_id, k1) = (case cb_block_id p of Some v \<Rightarrow> (v, k) | None \<Rightarrow> (nid env ''blk'' k, Suc k));
          blk = \<lparr>block_id = new_id, b_task_id = cb_task_id p, b_title = cb_title p,
                 notes_override = None, start = cb_start p, end' = cb_end p,
                 status = Planned, rev = 1,
                 recurrence = cloneRecurrence (cb_recurrence p)\<rparr>
      in Inr (push (okResult cid (block_created new_id))
                (st\<lparr>st_blocks := st_blocks st @ [blk], st_tick := k1\<rparr>)))"
| "applyCommand env cid (move_block bid new_start) st =
     (case findIndex (\<lambda>x. block_id x = bid) (st_blocks st) of
        None \<Rightarrow> Inl ''Error: NOT_FOUND: block''
      | Some i \<Rightarrow>
          (let b = st_blocks st ! i;
               dur = diffMinutes (end' b) (start b);
               b' = b\<lparr>start := new_start,
                      end' := plusMinutes new_start dur,
                      rev := rev b + 1\<rparr>
           in Inr (push (okResult cid (block_moved (block_id b') (start b') (end' b')))
                     (st\<lparr>st_blocks := (st_blocks st)[i := b']\<rparr>))))"
| "applyCommand env cid (resize_block bid new_end) st =
     (case findIndex (\<lambda>x. block_id x = bid) (st_blocks st) of
        None \<Rightarrow> Inl ''Error: NOT_FOUND: block''
      | Some i \<Rightarrow>
          (let b = st_blocks st ! i;
               b' = b\<lparr>end' := new_end, rev := rev b + 1\<rparr>
           in Inr (push (okResult cid (block_resized (block_id b') (end' b')))
                     (st\<lparr>st_blocks := (st_blocks st)[i := b']\<rparr>))))"
| "applyCommand env cid (complete_block bid) st =
     (case findIndex (\<lambda>x. block_id x = bid) (st_blocks st) of
        None \<Rightarrow> Inl ''Error: NOT_FOUND: block''
      | Some i \<Rightarrow>
          (let b = st_blocks st ! i;
               b' = b\<lparr>status := Done\<rparr>
           in Inr (push (okResult cid (block_completed (block_id b')))
                     (st\<lparr>st_blocks := (st_blocks st)[i := b']\<rparr>))))"
| "applyCommand env cid (update_task tid patch) st =
     (case findIndex (\<lambda>x. task_id x = tid) (st_tasks st) of
        None \<Rightarrow> Inl ''Error: NOT_FOUND: task''
      | Some i \<Rightarrow>
          (let tsk = st_tasks st ! i;
               tsk' = (case patch of None \<Rightarrow> tsk | Some p \<Rightarrow> assignTask tsk p)
           in Inr (push (okResult cid (task_patched (task_id tsk')))
                     (st\<lparr>st_tasks := (st_tasks st)[i := tsk']\<rparr>))))"
| "applyCommand env cid (set_recurrence tid rrule) st =
     (case findIndex (\<lambda>x. task_id x = tid) (st_tasks st) of
        None \<Rightarrow> Inl ''Error: NOT_FOUND: task''
      | Some i \<Rightarrow>
          (let tsk = st_tasks st ! i;
               tsk' = tsk\<lparr>t_recurrence :=
                          Some (setKey ''rrule'' rrule
                                  (case t_recurrence tsk of None \<Rightarrow> [] | Some kvs \<Rightarrow> kvs))\<rparr>
           in Inr (push (okResult cid (task_rrule (task_id tsk') rrule))
                     (st\<lparr>st_tasks := (st_tasks st)[i := tsk']\<rparr>))))"
| "applyCommand env cid (unsupported t) st =
     Inr (push \<lparr>r_for = cid, ok = False, r_error = Some (''UNSUPPORTED: '' @ t),
                effects = None\<rparr> st)"
| "applyCommand env cid malformed st = Inl ''TypeError''"

text \<open>One turn of the loop: the \<open>try\<close> body, and the \<open>catch\<close> that records the exception.\<close>

definition stepCommand :: "Env \<Rightarrow> PState \<Rightarrow> AICommandEnvelope \<Rightarrow> PState" where
  "stepCommand env st cmd =
     (case applyCommand env (env_id cmd) (command cmd) st of
        Inr st' \<Rightarrow> st'
      | Inl msg \<Rightarrow>
          push \<lparr>r_for = Some (case env_id cmd of Some i \<Rightarrow> i | None \<Rightarrow> ''N/A''),
                ok = False, r_error = Some msg, effects = None\<rparr> st)"

definition applyCommands :: "Env \<Rightarrow> AICommandEnvelope list \<Rightarrow> PState \<Rightarrow> PState" where
  "applyCommands env cmds st = foldl (stepCommand env) st cmds"

text \<open>
  A JavaScript string is a sequence of 16-bit code units. Reading the inbox gives its
  text or fails with a message; \<open>parseJSONL\<close>, which is not modelled, gives the
  envelopes of a text, or \<open>None\<close> when a line is not JSON. The function takes the loaded
  collections and returns the saved ones with the results.
\<close>

type_synonym jsstring = "16 word list"

definition applyCommandsFromInbox ::
  "Env \<Rightarrow> (jsstring \<Rightarrow> AICommandEnvelope list option) \<Rightarrow> string + jsstring
     \<Rightarrow> Task list \<Rightarrow> Block list \<Rightarrow> error + (Task list \<times> Block list \<times> ApplyResult list)" where
  "applyCommandsFromInbox env parseJSONL inbox tasks0 blocks0 =
     (let (raw, out0) =
            (case inbox of
               Inr text \<Rightarrow> (text, [])
             | Inl e \<Rightarrow>
                 ([], [\<lparr>r_for = Some ''N/A'', ok = False,
                        r_error = Some (''READ_FAIL: '' @ e), effects = None\<rparr>]));
          st0 = \<lparr>st_tasks = tasks0, st_blocks = blocks0, st_out = out0, st_tick = 0\<rparr>
      in if raw \<noteq> [] then
           (case parseJSONL raw of
              None \<Rightarrow> Inl SyntaxError
            | Some lines \<Rightarrow>
                (let st = applyCommands env lines st0
                 in Inr (st_tasks st, st_blocks st, st_out st)))
         else Inr (st_tasks st0, st_blocks st0, st_out st0))"




section \<open>Batch signature (App.tsx)\<close>

definition digit :: "nat \<Rightarrow> char" where
  "digit d = ''0123456789'' ! d"

function showNat :: "nat \<Rightarrow> string" where
  "showNat n = (if n < 10 then [digit n] else showNat (n div 10) @ [digit (n mod 10)])"
  by pat_completeness auto
termination
  by (relation "measure id") auto

definition showInt :: "int \<Rightarrow> string" where
  "showInt i = (if i < 0 then ''-'' @ showNat (nat (- i)) else showNat (nat i))"

text \<open>
  \<open>h = ((h << 5) - h) + s.charCodeAt(i); h |= 0\<close>: after every step \<open>h\<close> is a signed
  32-bit integer, so the sum is taken in 32-bit words.
\<close>

definition hashStr :: "jsstring \<Rightarrow> string" where
  "hashStr s = showInt (sint (foldl (\<lambda>h c. (push_bit 5 h - h) + ucast c) (0 :: 32 word) s))"

definition signature :: "jsstring \<Rightarrow> string" where
  "signature raw = (if raw \<noteq> [] then showNat (length raw) @ '':'' @ hashStr raw else [])"

datatype message = Applying | UpToDateSkipped | Completed nat nat | Other

text \<open>
  The state that \<open>onApplyCommands\<close> reads and writes: the last applied signature held
  by the page, the stored collections, the stored signature and the message shown.
  \<open>loadTasks\<close> and \<open>loadBlocks\<close> give the collections as loaded at the time of the call;
  loading blocks also materialises recurrences, which depends on the wall clock.
\<close>

record AppState =
  lastSig :: string
  disk_tasks :: "Task list"
  disk_blocks :: "Block list"
  last_sig_file :: "string option"
  msg :: message

definition onApplyCommands ::
  "Env \<Rightarrow> (jsstring \<Rightarrow> AICommandEnvelope list option) \<Rightarrow> (Block list \<Rightarrow> Block list)
     \<Rightarrow> string + jsstring \<Rightarrow> AppState \<Rightarrow> error + AppState" where
  "onApplyCommands env parseJSONL loadBlocks inbox app =
     (let raw = (case inbox of Inr text \<Rightarrow> text | Inl e \<Rightarrow> []);
          sig = signature raw
      in if sig \<noteq> [] \<and> sig = lastSig app then Inr (app\<lparr>msg := UpToDateSkipped\<rparr>)
         else
           (case applyCommandsFromInbox env parseJSONL inbox (disk_tasks app)
                   (loadBlocks (disk_blocks app)) of
              Inl e \<Rightarrow> Inl e
            | Inr (tasks1, blocks1, result) \<Rightarrow>
                Inr (app\<lparr>disk_tasks := tasks1,
                         disk_blocks := blocks1,
                         last_sig_file := (if sig \<noteq> [] then Some sig else last_sig_file app),
                         lastSig := (if sig \<noteq> [] then sig else lastSig app),
                         msg := Completed (length (filter ok result))
                                  (length (filter (\<lambda>r. \<not> ok r) result))\<rparr>)))"

section \<open>Conflict resolution on release of a drag (WeekGrid.tsx)\<close>

datatype Strategy = StrategyAllow | StrategyBlock | StrategyPush | StrategyClip

datatype Mode = MoveMode | ResizeMode

text \<open>The drag state, without the fields that only serve the display.\<close>

record DragState =
  drag_id :: string
  mode :: Mode
  originalDay :: int
  targetDay :: int
  startM :: int
  endM :: int
  d_duration :: int
  previewStartM :: int
  previewEndM :: int

text \<open>\<open>days[i]\<close> is undefined outside the array.\<close>

definition nthDay :: "iso list \<Rightarrow> int \<Rightarrow> iso option" where
  "nthDay days i = (if 0 \<le> i \<and> nat i < length days then Some (days ! nat i) else None)"

text \<open>
  \<open>byDay\<close> has a key for the ISO date of every displayed day; under it are the blocks
  that start on that date, in the order of their start (the sort is stable).
\<close>

definition byDay :: "iso list \<Rightarrow> Block list \<Rightarrow> isodate \<Rightarrow> Block list option" where
  "byDay days blocks dayISO =
     (if dayISO \<in> set (map toISODate days)
      then Some (sort_key start (filter (\<lambda>b. toISODate (start b) = dayISO) blocks))
      else None)"

text \<open>
  \<open>byDay[days[dayIndex].toISODate()!] ?? []\<close>: reading the date of an undefined day
  raises a TypeError.
\<close>

definition dayBlocks :: "iso list \<Rightarrow> Block list \<Rightarrow> int \<Rightarrow> error + Block list" where
  "dayBlocks days blocks dayIndex =
     (case nthDay days dayIndex of
        None \<Rightarrow> Inl TypeError
      | Some d \<Rightarrow>
          Inr (case byDay days blocks (toISODate d) of None \<Rightarrow> [] | Some bs \<Rightarrow> bs))"

record Item =
  it_s :: int
  it_e :: int
  it_id :: string

definition toItem :: "Block \<Rightarrow> Item" where
  "toItem b =
     \<lparr>it_s = minutesSinceMidnight (start b), it_e = minutesSinceMidnight (end' b),
      it_id = block_id b\<rparr>"

definition computeOverlap :: "iso list \<Rightarrow> Block list \<Rightarrow> int \<Rightarrow> string \<Rightarrow> int \<Rightarrow> int \<Rightarrow> error + bool" where
  "computeOverlap days blocks dayIndex selfId sM eM =
     (case dayBlocks days blocks dayIndex of
        Inl err \<Rightarrow> Inl err
      | Inr bs \<Rightarrow>
          Inr (list_ex (\<lambda>ob. overlaps sM eM (minutesSinceMidnight (start ob))
                               (minutesSinceMidnight (end' ob)))
                 (filter (\<lambda>x. block_id x \<noteq> selfId) bs)))"

text \<open>The loop of \<open>findNextGap\<close> over the neighbouring pairs of \<open>items\<close>.\<close>

fun scanGaps :: "Item list \<Rightarrow> int \<Rightarrow> int \<Rightarrow> int" where
  "scanGaps (a # b # rest) fromM dur =
     (let curEnd = max (it_e a) fromM;
          nextStart = it_s b
      in if curEnd + dur \<le> nextStart then curEnd else scanGaps (b # rest) fromM dur)"
| "scanGaps items fromM dur = - 1"

definition findNextGap :: "iso list \<Rightarrow> Block list \<Rightarrow> int \<Rightarrow> int \<Rightarrow> int \<Rightarrow> error + int" where
  "findNextGap days blocks dayIndex fromM dur =
     (case dayBlocks days blocks dayIndex of
        Inl err \<Rightarrow> Inl err
      | Inr bs \<Rightarrow>
          (let items = \<lparr>it_s = 0, it_e = 0, it_id = ''__start''\<rparr> # map toItem bs
                       @ [\<lparr>it_s = MINUTES_PER_DAY, it_e = MINUTES_PER_DAY, it_id = ''__end''\<rparr>]
           in Inr (scanGaps items fromM dur)))"

definition clipEndToFirstConflict ::
  "iso list \<Rightarrow> Block list \<Rightarrow> int \<Rightarrow> string \<Rightarrow> int \<Rightarrow> int \<Rightarrow> error + int" where
  "clipEndToFirstConflict days blocks dayIndex selfId sM eM =
     (case dayBlocks days blocks dayIndex of
        Inl err \<Rightarrow> Inl err
      | Inr bs \<Rightarrow>
          (let items = map toItem (filter (\<lambda>b. block_id b \<noteq> selfId) bs)
           in Inr (foldl (\<lambda>limit it.
                       if overlaps sM eM (it_s it) (it_e it) \<and> it_s it > sM
                       then min limit (it_s it) else limit)
                     eM items)))"

datatype notification = OverlapCancelled | NoGapToPush

text \<open>The calls that \<open>onUp\<close> makes on the callbacks of the grid, in order.\<close>

datatype call = onMove string iso | onResize string iso | onNotify notification

definition commitAsGiven :: "DragState \<Rightarrow> isodate option \<Rightarrow> isodate option \<Rightarrow> call list" where
  "commitAsGiven d targetISO originalISO =
     (case (mode d, targetISO, originalISO) of
        (MoveMode, Some t, _) \<Rightarrow>
          [onMove (drag_id d) (isoForDateAndMinutes (fromISODate t) (previewStartM d))]
      | (_, _, Some orig) \<Rightarrow>
          [onResize (drag_id d) (isoForDateAndMinutes (fromISODate orig) (previewEndM d))]
      | _ \<Rightarrow> [])"

definition onUp :: "iso list \<Rightarrow> Block list \<Rightarrow> Strategy \<Rightarrow> DragState option \<Rightarrow> error + call list" where
  "onUp days blocks strategy dragState =
     (case dragState of
        None \<Rightarrow> Inr []
      | Some d \<Rightarrow>
          (let sM = previewStartM d;
               eM = previewEndM d
           in case computeOverlap days blocks (targetDay d) (drag_id d) sM eM of
                Inl err \<Rightarrow> Inl err
              | Inr overlapNow \<Rightarrow>
                  (let targetISO = map_option toISODate (nthDay days (targetDay d));
                       originalISO = map_option toISODate (nthDay days (originalDay d))
                   in if overlapNow then
                        if strategy = StrategyBlock then Inr [onNotify OverlapCancelled]
                        else if strategy = StrategyPush \<and> mode d = MoveMode then
                          (case findNextGap days blocks (targetDay d) sM (d_duration d) of
                             Inl err \<Rightarrow> Inl err
                           | Inr ng \<Rightarrow>
                               (case targetISO of
                                  Some t \<Rightarrow>
                                    if ng \<ge> 0
                                    then Inr [onMove (drag_id d)
                                                (isoForDateAndMinutes (fromISODate t) ng)]
                                    else Inr [onNotify NoGapToPush]
                                | None \<Rightarrow> Inr [onNotify NoGapToPush]))
                        else if strategy = StrategyClip then
                          (case (mode d, originalISO) of
                             (ResizeMode, Some orig) \<Rightarrow>
                               (case clipEndToFirstConflict days blocks (originalDay d)
                                       (drag_id d) (startM d) eM of
                                  Inl err \<Rightarrow> Inl err
                                | Inr clipped \<Rightarrow>
                                    Inr [onResize (drag_id d)
                                           (isoForDateAndMinutes (fromISODate orig)
                                              (max clipped (startM d + SNAP_MIN)))])
                           | _ \<Rightarrow>
                               (case targetISO of
                                  Some t \<Rightarrow>
                                    (case clipEndToFirstConflict days blocks (targetDay d)
                                            (drag_id d) sM eM of
                                       Inl err \<Rightarrow> Inl err
                                     | Inr clipped \<Rightarrow>
                                         (let eM' = max clipped (sM + SNAP_MIN)
                                          in Inr [onMove (drag_id d)
                                                    (isoForDateAndMinutes (fromISODate t) sM),
                                                  onResize (drag_id d)
                                                    (isoForDateAndMinutes (fromISODate t) eM')]))
                                | None \<Rightarrow> Inr []))
                        else Inr (commitAsGiven d targetISO originalISO)
                      else Inr (commitAsGiven d targetISO originalISO))))"

section \<open>Example data\<close>

definition mkBlock :: "string \<Rightarrow> iso \<Rightarrow> iso \<Rightarrow> BlockStatus \<Rightarrow> BlockRecurrence option \<Rightarrow> Block" where
  "mkBlock bid s e st r =
     \<lparr>block_id = bid, b_task_id = None, b_title = None, notes_override = None,
      start = s, end' = e, status = st, rev = 1, recurrence = r\<rparr>"

definition everyOtherDay :: BlockRecurrence where
  "everyOtherDay =
     \<lparr>rid = ''r1'', rtype = Daily, interval = 2, daysOfWeek = [],
      startDate = DT (fromISODate (daysFromCivil 2024 1 1)), startMinute = Some 540,
      duration = 60, until = None, exceptions = []\<rparr>"

definition localTime :: "int \<Rightarrow> int \<Rightarrow> int \<Rightarrow> int \<Rightarrow> int \<Rightarrow> iso" where
  "localTime y m d hh mm = fromISODate (daysFromCivil y m d) + (hh * 60 + mm) * MS_PER_MINUTE"

definition seriesBlocks :: "Block list" where
  "seriesBlocks =
     [mkBlock ''a'' (localTime 2024 1 1 9 0) (localTime 2024 1 1 10 0) Planned (Some everyOtherDay),
      mkBlock ''b'' (localTime 2024 1 3 9 0) (localTime 2024 1 3 10 0) InProgress (Some everyOtherDay),
      mkBlock ''c'' (localTime 2024 1 5 9 0) (localTime 2024 1 5 10 0) Done (Some everyOtherDay),
      mkBlock ''x'' (localTime 2024 1 3 12 0) (localTime 2024 1 3 12 45) Planned None]"

definition exEnv :: Env where
  "exEnv = \<lparr>nid = (\<lambda>prefix k. prefix @ ''_'' @ showNat k), clock = (\<lambda>k. localTime 2024 1 2 8 0)\<rparr>"


definition envelope :: "string \<Rightarrow> command \<Rightarrow> AICommandEnvelope" where
  "envelope cid c = \<lparr>env_id = Some cid, actor = ''ai'', issued_at = ''2024-01-02T08:00:00'', command = c\<rparr>"

definition exBatch :: "AICommandEnvelope list" where
  "exBatch =
     [envelope ''c1'' (move_block ''nope'' (localTime 2024 1 2 9 0)),
      envelope ''c2'' (unsupported ''add_checklist_item''),
      envelope ''c3'' (update_task ''t9'' None),
      envelope ''c4'' (complete_block ''x'')]"

definition exDays :: "iso list" where
  "exDays = [localTime 2024 1 1 0 0, localTime 2024 1 2 0 0]"

definition morningBlocks :: "Block list" where
  "morningBlocks =
     [mkBlock ''a'' (localTime 2024 1 1 9 0) (localTime 2024 1 1 10 0) Planned None,
      mkBlock ''b'' (localTime 2024 1 1 10 0) (localTime 2024 1 1 11 0) Planned None,
      mkBlock ''c'' (localTime 2024 1 1 11 0) (localTime 2024 1 1 12 0) Planned None]"

definition pushDrag :: DragState where
  "pushDrag =
     \<lparr>drag_id = ''b'', mode = MoveMode, originalDay = 0, targetDay = 0,
      startM = 600, endM = 660, d_duration = 60,
      previewStartM = 570, previewEndM = 630\<rparr>"

definition otherDayBlocks :: "Block list" where
  "otherDayBlocks =
     [mkBlock ''a'' (localTime 2024 1 1 9 0) (localTime 2024 1 1 10 0) Planned None,
      mkBlock ''b'' (localTime 2024 1 2 10 0) (localTime 2024 1 2 11 0) Planned None,
      mkBlock ''c'' (localTime 2024 1 1 11 0) (localTime 2024 1 1 12 0) Planned None]"

definition divergentBlocks :: "Block list" where
  "divergentBlocks =
     [mkBlock ''a'' (localTime 2024 1 1 9 0) (localTime 2024 1 1 10 0) Planned
        (Some (everyOtherDay\<lparr>exceptions := [daysFromCivil 2024 1 7]\<rparr>)),
      mkBlock ''b'' (localTime 2024 1 3 9 0) (localTime 2024 1 3 10 0) Planned
        (Some (everyOtherDay\<lparr>exceptions := [daysFromCivil 2024 1 7]\<rparr>)),
      mkBlock ''c'' (localTime 2024 1 5 9 0) (localTime 2024 1 5 10 0) Planned
        (Some (everyOtherDay\<lparr>exceptions := [daysFromCivil 2024 1 9]\<rparr>))]"

definition earlyBlocks :: "Block list" where
  "earlyBlocks =
     [mkBlock ''s'' (localTime 2024 1 1 8 0) (localTime 2024 1 1 9 30) Planned None,
      mkBlock ''b'' (localTime 2024 1 1 9 0) (localTime 2024 1 1 10 0) Planned None]"

definition lateBlocks :: "Block list" where
  "lateBlocks =
     [mkBlock ''b'' (localTime 2024 1 1 9 0) (localTime 2024 1 1 9 30) Planned None,
      mkBlock ''s'' (localTime 2024 1 1 10 0) (localTime 2024 1 1 10 30) Planned None]"

definition resizeDrag :: "int \<Rightarrow> DragState" where
  "resizeDrag e =
     \<lparr>drag_id = ''b'', mode = ResizeMode, originalDay = 0, targetDay = 0,
      startM = 540, endM = e, d_duration = e - 540,
      previewStartM = 540, previewEndM = 660\<rparr>"

text \<open>The code units of the inbox line \<open>{"a":1}\<close>.\<close>

definition exRaw :: jsstring where
  "exRaw = [123, 34, 97, 34, 58, 49, 125]"

definition exApp :: AppState where
  "exApp =
     \<lparr>lastSig = ''7:-1442153986'', disk_tasks = [], disk_blocks = seriesBlocks,
      last_sig_file = Some ''7:-1442153986'', msg = Other\<rparr>"

section \<open>Properties\<close>

subsection \<open>Helper facts\<close>

lemma findIndex_Some:
  "findIndex p xs = Some i \<Longrightarrow> i < length xs \<and> p (xs ! i) \<and> (\<forall>j<i. \<not> p (xs ! j))"
proof (induction xs arbitrary: i)
  case Nil
  then show ?case by simp
next
  case (Cons x xs)
  show ?case
  proof (cases "p x")
    case True
    with Cons.prems show ?thesis by simp
  next
    case False
    with Cons.prems obtain k where k: "findIndex p xs = Some k" "i = Suc k"
      by auto
    from Cons.IH [OF k(1)] False k(2) show ?thesis
      by (auto simp: nth_Cons split: nat.splits)
  qed
qed

lemma findIndex_None: "findIndex p xs = None \<longleftrightarrow> (\<forall>x\<in>set xs. \<not> p x)"
  by (induction xs) auto

lemma findIndex_update_same:
  assumes "findIndex p xs = Some i" and "p y"
  shows "findIndex p (xs[i := y]) = Some i"
  using assms
proof (induction xs arbitrary: i)
  case Nil
  then show ?case by simp
next
  case (Cons x xs)
  show ?case
  proof (cases "p x")
    case True
    with Cons.prems show ?thesis by simp
  next
    case False
    with Cons.prems obtain k where k: "findIndex p xs = Some k" "i = Suc k"
      by auto
    from Cons.IH [OF k(1) Cons.prems(2)] False k(2) show ?thesis
      by simp
  qed
qed

subsection \<open>ISO construction\<close>

lemma startOfDay_eq: "startOfDay t = toISODate t * MS_PER_DAY"
  by (simp add: toISODate_def startOfDay_def minus_mod_eq_div_mult)

lemma toISODate_offset:
  assumes "0 \<le> r" and "r < MS_PER_DAY"
  shows "toISODate (q * MS_PER_DAY + r) = q"
proof -
  have "(q * MS_PER_DAY + r) div MS_PER_DAY = q + r div MS_PER_DAY"
    by (simp add: MS_PER_DAY_def)
  with assms show ?thesis
    by (simp add: toISODate_def div_pos_pos_trivial)
qed

lemma startOfDay_day: "toISODate (startOfDay t) = toISODate t"
  using toISODate_offset [of 0 "toISODate t"] by (simp add: startOfDay_eq MS_PER_DAY_def)

lemma plusMinutes_int: "plusMinutes t (of_int m) = t + m * MS_PER_MINUTE"
proof -
  have "(of_int m :: rat) * of_int MS_PER_MINUTE = of_int (m * MS_PER_MINUTE)"
    by simp
  then show ?thesis
    unfolding plusMinutes_def by (simp only: floor_of_int)
qed

text \<open>
  C8, as stated: the effective offset is always strictly below 1440, so the result never
  falls on the following day. It fails at the offset 1440 (and at every larger one): the
  clamp keeps 1440, and on a day without a clock change the result is midnight of the
  following day.
\<close>

theorem isoForDateAndMinutes_next_day:
  "isoForDateAndMinutes (fromISODate (daysFromCivil 2024 1 1)) 1440
     = fromISODate (daysFromCivil 2024 1 2)
   \<and> isoForDayAndMinutes (fromISODate (daysFromCivil 2024 1 1)) 0 1440
     = fromISODate (daysFromCivil 2024 1 2)
   \<and> clamp 1440 0 MINUTES_PER_DAY = 1440"
  by (simp add: isoForDateAndMinutes_def isoForDayAndMinutes_def plusMinutes_int plusDays_def
      fromISODate_def daysFromCivil_def startOfDay_def clamp_def MINUTES_PER_DAY_def
      MS_PER_DAY_def MS_PER_MINUTE_def)

text \<open>
  C8, amended: for every date and every integer offset \<open>m\<close>, both construction functions
  return local midnight of the date plus \<open>m\<close> clamped into the closed range from 0 to 1440
  minutes of elapsed time. The effective offset is at most 1440 and equals 1440 exactly
  when \<open>m \<ge> 1440\<close>. Nothing is said of the calendar day on which the result falls, which
  depends on the clock changes of the zone.
\<close>

theorem isoForDateAndMinutes_clamped:
  "isoForDateAndMinutes dateISO m
     = startOfDay dateISO + (if m < 0 then 0 else if m > 1440 then 1440 else m) * MS_PER_MINUTE
   \<and> isoForDayAndMinutes weekStartISO dayIndex m
     = startOfDay (plusDays weekStartISO dayIndex)
       + (if m < 0 then 0 else if m > 1440 then 1440 else m) * MS_PER_MINUTE
   \<and> 0 \<le> clamp m 0 MINUTES_PER_DAY
   \<and> clamp m 0 MINUTES_PER_DAY \<le> 1440
   \<and> (clamp m 0 MINUTES_PER_DAY = 1440 \<longleftrightarrow> 1440 \<le> m)"
proof -
  let ?c = "\<lambda>m::int. if m < 0 then 0 else if m > 1440 then 1440 else m"
  have c: "clamp m 0 MINUTES_PER_DAY = ?c m"
    by (simp add: clamp_def MINUTES_PER_DAY_def)
  have a: "isoForDateAndMinutes dateISO m = startOfDay dateISO + ?c m * MS_PER_MINUTE"
    unfolding isoForDateAndMinutes_def Let_def c plusMinutes_int ..
  have b: "isoForDayAndMinutes weekStartISO dayIndex m
      = startOfDay (plusDays weekStartISO dayIndex) + ?c m * MS_PER_MINUTE"
    unfolding isoForDayAndMinutes_def Let_def c plusMinutes_int ..
  show ?thesis
    unfolding a b c by simp
qed

theorem isoForDateAndMinutes_clamped_witness:
  "isoForDateAndMinutes (fromISODate (daysFromCivil 2024 1 1) + 5) 2000
     = fromISODate (daysFromCivil 2024 1 1) + 1440 * MS_PER_MINUTE
   \<and> clamp 2000 0 MINUTES_PER_DAY = 1440"
  using isoForDateAndMinutes_clamped [of "fromISODate (daysFromCivil 2024 1 1) + 5" 2000 0 0]
  by (simp add: fromISODate_def daysFromCivil_def startOfDay_def MS_PER_DAY_def
      MS_PER_MINUTE_def)

subsection \<open>Toggling completion\<close>

text \<open>
  C10: for every block id present in the collection, \<open>toggleBlockDone\<close> sets the status
  of the block found to \<open>planned\<close> when it is \<open>done\<close> and to \<open>done\<close> otherwise, changes
  nothing else, and returns the new status. Toggling a block that is not \<open>done\<close>
  twice ends at \<open>planned\<close>, which for \<open>in_progress\<close> and \<open>skipped\<close> is not the
  original status.
\<close>

theorem toggleBlockDone_status:
  assumes "findIndex (\<lambda>x. block_id x = bid) blocks = Some i"
  shows "toggleBlockDone bid blocks
           = Inr (blocks[i := (blocks ! i)\<lparr>status := (if status (blocks ! i) = Done then Planned else Done)\<rparr>],
                  (if status (blocks ! i) = Done then Planned else Done))
         \<and> (status (blocks ! i) \<noteq> Done \<longrightarrow>
              (\<exists>blocks1. toggleBlockDone bid blocks = Inr (blocks1, Done)
                 \<and> toggleBlockDone bid blocks1
                     = Inr (blocks[i := (blocks ! i)\<lparr>status := Planned\<rparr>], Planned)))"
proof -
  let ?b = "blocks ! i"
  let ?s = "if status ?b = Done then Planned else Done"
  let ?blocks1 = "blocks[i := ?b\<lparr>status := ?s\<rparr>]"
  have first: "toggleBlockDone bid blocks = Inr (?blocks1, ?s)"
    using assms by (simp add: toggleBlockDone_def Let_def)
  from findIndex_Some [OF assms] have i: "i < length blocks" "block_id ?b = bid"
    by auto
  have idx: "findIndex (\<lambda>x. block_id x = bid) ?blocks1 = Some i"
    by (rule findIndex_update_same [OF assms]) (simp add: i)
  have second: "toggleBlockDone bid ?blocks1 = Inr (blocks[i := ?b\<lparr>status := Planned\<rparr>], Planned)"
    if "status ?b \<noteq> Done"
    using that idx i by (simp add: toggleBlockDone_def Let_def)
  show ?thesis
    using first second by auto
qed

theorem toggleBlockDone_status_witness:
  "findIndex (\<lambda>x. block_id x = ''b1'') [mkBlock ''b1'' 0 60000 Skipped None] = Some 0
   \<and> toggleBlockDone ''b1'' [mkBlock ''b1'' 0 60000 Skipped None]
       = Inr ([mkBlock ''b1'' 0 60000 Done None], Done)
   \<and> toggleBlockDone ''b1'' [mkBlock ''b1'' 0 60000 Done None]
       = Inr ([mkBlock ''b1'' 0 60000 Planned None], Planned)"
proof -
  have h: "findIndex (\<lambda>x. block_id x = ''b1'') [mkBlock ''b1'' 0 60000 Skipped None] = Some 0"
    by (simp add: mkBlock_def)
  from toggleBlockDone_status [OF h] h show ?thesis
    by (auto simp: mkBlock_def)
qed

subsection \<open>Which days a rule includes\<close>

lemma less_mult_iff_div_less:
  fixes d q b :: int
  assumes "0 < b"
  shows "d < q * b \<longleftrightarrow> d div b < q"
proof
  assume "d < q * b"
  show "d div b < q"
  proof (rule ccontr)
    assume "\<not> d div b < q"
    then have "q \<le> d div b" by simp
    then have "q * b \<le> (d div b) * b"
      using assms by (simp add: mult_right_mono)
    moreover have "d = (d div b) * b + d mod b" by simp
    moreover have "0 \<le> d mod b" using assms by simp
    ultimately show False using \<open>d < q * b\<close> by linarith
  qed
next
  assume "d div b < q"
  show "d < q * b"
  proof (rule ccontr)
    assume "\<not> d < q * b"
    then have "q * b \<le> d" by simp
    then have "(q * b) div b \<le> d div b"
      using assms by (rule zdiv_mono1)
    then show False using \<open>d div b < q\<close> assms by simp
  qed
qed

lemma less_startOfDay: "d < startOfDay a \<longleftrightarrow> toISODate d < toISODate a"
  unfolding startOfDay_eq
  using less_mult_iff_div_less [of MS_PER_DAY d "toISODate a"]
  by (simp add: toISODate_def MS_PER_DAY_def)

lemma endOfDay_less: "endOfDay a < d \<longleftrightarrow> toISODate a < toISODate d"
proof -
  have "endOfDay a < d \<longleftrightarrow> \<not> d < (toISODate a + 1) * MS_PER_DAY"
    by (auto simp: endOfDay_def startOfDay_eq algebra_simps)
  also have "\<dots> \<longleftrightarrow> \<not> toISODate d < toISODate a + 1"
    using less_mult_iff_div_less [of MS_PER_DAY d "toISODate a + 1"]
    by (simp add: toISODate_def MS_PER_DAY_def)
  finally show ?thesis by auto
qed

lemma startOfDay_diff_days:
  "(startOfDay d - startOfDay a) div MS_PER_DAY = toISODate d - toISODate a"
proof -
  have "startOfDay d - startOfDay a = (toISODate d - toISODate a) * MS_PER_DAY"
    by (simp add: startOfDay_eq algebra_simps)
  then show ?thesis by (simp add: MS_PER_DAY_def)
qed

lemma toISODate_mono: "a \<le> b \<Longrightarrow> toISODate a \<le> toISODate b"
  unfolding toISODate_def by (rule zdiv_mono1) (simp_all add: MS_PER_DAY_def)

text \<open>
  C6, as stated: a daily rule includes a day exactly when the day is on or after the anchor
  date, within the limit, not an exception, and the number of days from the anchor is
  divisible by the interval. It fails for an interval below 1: with interval 0 or -3 the
  rule anchored at 2024-01-01 includes 2024-01-02, one day after the anchor. It also
  fails for an anchor with a time of day: anchored at 2024-01-01 09:00, the rule does not
  include midnight of 2024-01-01.
\<close>

theorem shouldIncludeDate_interval_below_one:
  "shouldIncludeDate (everyOtherDay\<lparr>interval := 0\<rparr>) (DT (fromISODate (daysFromCivil 2024 1 2)))
   \<and> \<not> (0 :: int) dvd (daysFromCivil 2024 1 2 - daysFromCivil 2024 1 1)
   \<and> shouldIncludeDate (everyOtherDay\<lparr>interval := - 3\<rparr>) (DT (fromISODate (daysFromCivil 2024 1 2)))
   \<and> \<not> (- 3 :: int) dvd (daysFromCivil 2024 1 2 - daysFromCivil 2024 1 1)
   \<and> \<not> shouldIncludeDate (everyOtherDay\<lparr>startDate := DT (localTime 2024 1 1 9 0)\<rparr>)
          (DT (fromISODate (daysFromCivil 2024 1 1)))"
  by (simp add: shouldIncludeDate_def everyOtherDay_def fromISODate_def daysFromCivil_def
      localTime_def startOfDay_def toISODate_def MS_PER_DAY_def MS_PER_MINUTE_def)

text \<open>
  C6, amended: for every daily rule, \<open>shouldIncludeDate\<close> holds of a day exactly when the
  anchor parses, the day is not before the anchor (for an anchor that is a plain date:
  it is on or after the anchor date), it is on or before the end of the \<open>until\<close> day when
  \<open>until\<close> is set and parses, its ISO date is not among the exceptions, and the number
  of days from the anchor to it is divisible by the larger of 1 and the interval.
\<close>

theorem shouldIncludeDate_daily:
  assumes "rtype rec = Daily"
  shows "(shouldIncludeDate rec (DT d) \<longleftrightarrow>
           (\<exists>anchor. startDate rec = DT anchor
              \<and> anchor \<le> d
              \<and> (\<forall>limit. until rec = Some (DT limit) \<longrightarrow> d \<le> endOfDay limit)
              \<and> toISODate d \<notin> set (exceptions rec)
              \<and> max 1 (interval rec) dvd (toISODate d - toISODate anchor)))
       \<and> (\<forall>anchor. startOfDay anchor = anchor \<longrightarrow>
             (anchor \<le> d \<longleftrightarrow> toISODate anchor \<le> toISODate d))"
proof -
  have lim: "(case until rec of Some (DT limit) \<Rightarrow> startOfDay d > endOfDay limit | _ \<Rightarrow> False)
      \<longleftrightarrow> \<not> (\<forall>limit. until rec = Some (DT limit) \<longrightarrow> d \<le> endOfDay limit)"
  proof (cases "until rec")
    case None
    then show ?thesis by simp
  next
    case (Some l)
    show ?thesis
    proof (cases l)
      case (DT limit)
      have "endOfDay limit < startOfDay d \<longleftrightarrow> endOfDay limit < d"
        by (simp add: endOfDay_less startOfDay_day)
      with Some DT show ?thesis by auto
    next
      case Invalid
      with Some show ?thesis by simp
    qed
  qed
  have main: "shouldIncludeDate rec (DT d) \<longleftrightarrow>
           (\<exists>anchor. startDate rec = DT anchor
              \<and> anchor \<le> d
              \<and> (\<forall>limit. until rec = Some (DT limit) \<longrightarrow> d \<le> endOfDay limit)
              \<and> toISODate d \<notin> set (exceptions rec)
              \<and> max 1 (interval rec) dvd (toISODate d - toISODate anchor))"
  proof (cases "startDate rec")
    case Invalid
    then show ?thesis by (simp add: shouldIncludeDate_def)
  next
    case (DT anchor)
    have nonneg: "0 \<le> toISODate d - toISODate anchor" if "anchor \<le> d"
      using toISODate_mono [OF that] by simp
    show ?thesis
      unfolding shouldIncludeDate_def DT DateTime.case lim startOfDay_diff_days Let_def
      using assms nonneg by (auto simp: mod_eq_0_iff_dvd)
  qed
  have date: "anchor \<le> d \<longleftrightarrow> toISODate anchor \<le> toISODate d" if "startOfDay anchor = anchor"
    for anchor
    using less_startOfDay [of d anchor] that by auto
  from main date show ?thesis by blast
qed

text \<open>
  The rule anchored at 2024-01-01 with a daily interval of 2 includes, of the ten days
  from 2024-01-01, exactly 01-01, 01-03, 01-05, 01-07 and 01-09.
\<close>

theorem shouldIncludeDate_daily_witness:
  "rtype everyOtherDay = Daily
   \<and> shouldIncludeDate everyOtherDay (DT (fromISODate (daysFromCivil 2024 1 3)))
   \<and> filter (\<lambda>day. shouldIncludeDate everyOtherDay (DT (fromISODate day)))
        (map (\<lambda>k. daysFromCivil 2024 1 1 + int k) [0..<10])
       = [daysFromCivil 2024 1 1, daysFromCivil 2024 1 3, daysFromCivil 2024 1 5,
          daysFromCivil 2024 1 7, daysFromCivil 2024 1 9]"
proof -
  have h1: "rtype everyOtherDay = Daily"
    by (simp add: everyOtherDay_def)
  have day3: "shouldIncludeDate everyOtherDay (DT (fromISODate (daysFromCivil 2024 1 3)))"
    unfolding shouldIncludeDate_daily [OF h1, THEN conjunct1]
    by (simp add: everyOtherDay_def toISODate_def fromISODate_def daysFromCivil_def MS_PER_DAY_def)
  have ten: "filter (\<lambda>day. shouldIncludeDate everyOtherDay (DT (fromISODate day)))
        (map (\<lambda>k. daysFromCivil 2024 1 1 + int k) [0..<10])
       = [daysFromCivil 2024 1 1, daysFromCivil 2024 1 3, daysFromCivil 2024 1 5,
          daysFromCivil 2024 1 7, daysFromCivil 2024 1 9]"
    by code_simp
  from h1 day3 ten show ?thesis
    by - (intro conjI, assumption+)
qed

subsection \<open>Moving a block\<close>

lemma plusMinutes_diffMinutes: "plusMinutes t (diffMinutes a b) = t + (a - b)"
proof -
  have "diffMinutes a b * of_int MS_PER_MINUTE = of_int (a - b)"
    by (simp add: diffMinutes_def MS_PER_MINUTE_def)
  then show ?thesis
    unfolding plusMinutes_def by (simp only: floor_of_int)
qed

lemma cloneRecurrence_id: "cloneRecurrence rec = rec"
  by (cases rec) (simp_all add: cloneRecurrence_def)

lemma diffMinutes_whole:
  assumes "MS_PER_MINUTE dvd a - b"
  shows "diffMinutes a b = of_int ((a - b) div MS_PER_MINUTE)"
proof -
  from assms obtain k where k: "a - b = MS_PER_MINUTE * k" ..
  then show ?thesis
    by (simp add: diffMinutes_def MS_PER_MINUTE_def)
qed

lemma moveBlock_moved:
  assumes idx: "findIndex (\<lambda>x. block_id x = bid) blocks = Some i"
  shows "\<exists>blocks'. moveBlock bid newStart blocks = Inr blocks'
           \<and> length blocks' = length blocks
           \<and> start (blocks' ! i) = newStart
           \<and> end' (blocks' ! i)
               = plusMinutes newStart (diffMinutes (end' (blocks ! i)) (start (blocks ! i)))"
proof -
  from findIndex_Some [OF idx] have i: "i < length blocks" "block_id (blocks ! i) = bid"
    by auto
  show ?thesis
  proof (cases "recurrence (blocks ! i)")
    case None
    with idx i show ?thesis
      by (simp add: moveBlock_def Let_def)
  next
    case (Some r)
    show ?thesis
    proof (cases "rid r = []")
      case True
      with Some idx i show ?thesis
        by (simp add: moveBlock_def Let_def)
    next
      case False
      with Some idx i show ?thesis
        by (simp add: moveBlock_def Let_def nth_list_update)
    qed
  qed
qed

text \<open>
  C2: for every collection and every member of a series whose status is not \<open>done\<close>,
  moving that member to a new start shifts the start and the end of every other member
  of the series whose status is not \<open>done\<close> by the distance between the new and the old
  start of the moved block, and leaves the start and the end of every \<open>done\<close> member as
  they were.
\<close>

theorem moveBlock_series:
  assumes idx: "findIndex (\<lambda>x. block_id x = bid) blocks = Some i"
    and rec: "recurrence (blocks ! i) = Some r"
    and rid: "rid r \<noteq> []"
    and nd: "status (blocks ! i) \<noteq> Done"
  shows "\<exists>blocks'. moveBlock bid newStart blocks = Inr blocks'
           \<and> length blocks' = length blocks
           \<and> (\<forall>j<length blocks.
                (block_id (blocks ! j) \<noteq> bid \<and> hasRecId (rid r) (blocks ! j)
                   \<and> status (blocks ! j) \<noteq> Done \<longrightarrow>
                     start (blocks' ! j) = start (blocks ! j) + (newStart - start (blocks ! i))
                   \<and> end' (blocks' ! j) = end' (blocks ! j) + (newStart - start (blocks ! i)))
              \<and> (status (blocks ! j) = Done \<longrightarrow>
                     start (blocks' ! j) = start (blocks ! j)
                   \<and> end' (blocks' ! j) = end' (blocks ! j)))"
proof -
  from findIndex_Some [OF idx] have i: "i < length blocks" "block_id (blocks ! i) = bid"
    by auto
  define delta where "delta = diffMinutes newStart (start (blocks ! i))"
  define endNew where
    "endNew = plusMinutes newStart (diffMinutes (end' (blocks ! i)) (start (blocks ! i)))"
  define r' where "r' = (setRecurrenceAnchor r
         (case startDate r of Invalid \<Rightarrow> Invalid
          | DT a \<Rightarrow> DT (plusMinutes (plusMinutes a (case startMinute r of None \<Rightarrow> 0 | Some m \<Rightarrow> of_int m)) delta)))
         \<lparr>duration := diffMinutes endNew newStart\<rparr>"
  define b2 where "b2 = (blocks ! i)\<lparr>start := newStart, end' := endNew,
      rev := rev (blocks ! i) + 1, recurrence := Some r'\<rparr>"
  define f where "f = (\<lambda>other. if block_id other = bid then other
      else if hasRecId (rid r) other \<and> status other \<noteq> Done then
        other\<lparr>start := plusMinutes (start other) delta,
              end' := plusMinutes (end' other) delta,
              recurrence := cloneRecurrence (Some r'),
              rev := rev other + 1\<rparr>
      else other)"
  have res: "moveBlock bid newStart blocks = Inr (map f (blocks[i := b2]))"
    unfolding moveBlock_def f_def b2_def r'_def endNew_def delta_def
    using idx rec rid by (simp add: Let_def)
  have b2id: "block_id b2 = bid" "status b2 = status (blocks ! i)"
    by (simp_all add: b2_def i)
  have fb2: "f b2 = b2"
    by (simp add: f_def b2id)
  have at: "map f (blocks[i := b2]) ! j = (if j = i then b2 else f (blocks ! j))"
    if "j < length blocks" for j
    using that fb2 by (simp add: nth_list_update)
  have "(block_id (blocks ! j) \<noteq> bid \<and> hasRecId (rid r) (blocks ! j)
           \<and> status (blocks ! j) \<noteq> Done \<longrightarrow>
             start (map f (blocks[i := b2]) ! j) = start (blocks ! j) + (newStart - start (blocks ! i))
           \<and> end' (map f (blocks[i := b2]) ! j) = end' (blocks ! j) + (newStart - start (blocks ! i)))
      \<and> (status (blocks ! j) = Done \<longrightarrow>
             start (map f (blocks[i := b2]) ! j) = start (blocks ! j)
           \<and> end' (map f (blocks[i := b2]) ! j) = end' (blocks ! j))"
    if j: "j < length blocks" for j
  proof (cases "j = i")
    case True
    with i nd show ?thesis by simp
  next
    case False
    then show ?thesis
      unfolding at [OF j]
      by (simp add: f_def delta_def plusMinutes_diffMinutes)
  qed
  with res show ?thesis by simp
qed

theorem moveBlock_series_witness:
  "findIndex (\<lambda>x. block_id x = ''a'') seriesBlocks = Some 0
   \<and> recurrence (seriesBlocks ! 0) = Some everyOtherDay
   \<and> rid everyOtherDay \<noteq> []
   \<and> status (seriesBlocks ! 0) \<noteq> Done
   \<and> (\<exists>blocks'. moveBlock ''a'' (localTime 2024 1 1 9 30) seriesBlocks = Inr blocks'
         \<and> map start blocks'
             = [localTime 2024 1 1 9 30, localTime 2024 1 3 9 30, localTime 2024 1 5 9 0,
                localTime 2024 1 3 12 0]
         \<and> map end' blocks'
             = [localTime 2024 1 1 10 30, localTime 2024 1 3 10 30, localTime 2024 1 5 10 0,
                localTime 2024 1 3 12 45])"
proof -
  have h1: "findIndex (\<lambda>x. block_id x = ''a'') seriesBlocks = Some 0"
    by (simp add: seriesBlocks_def mkBlock_def)
  have h2: "recurrence (seriesBlocks ! 0) = Some everyOtherDay"
    by (simp add: seriesBlocks_def mkBlock_def)
  have h3: "rid everyOtherDay \<noteq> []"
    by (simp add: everyOtherDay_def)
  have h4: "status (seriesBlocks ! 0) \<noteq> Done"
    by (simp add: seriesBlocks_def mkBlock_def)
  from moveBlock_series [OF h1 h2 h3 h4, of "localTime 2024 1 1 9 30"]
  obtain blocks' where res: "moveBlock ''a'' (localTime 2024 1 1 9 30) seriesBlocks = Inr blocks'"
    by blast
  have ev: "moveBlock ''a'' (localTime 2024 1 1 9 30) seriesBlocks = Inr blocks'
      \<Longrightarrow> map start blocks'
             = [localTime 2024 1 1 9 30, localTime 2024 1 3 9 30, localTime 2024 1 5 9 0,
                localTime 2024 1 3 12 0]
         \<and> map end' blocks'
             = [localTime 2024 1 1 10 30, localTime 2024 1 3 10 30, localTime 2024 1 5 10 0,
                localTime 2024 1 3 12 45]"
    by (auto simp: moveBlock_def seriesBlocks_def mkBlock_def everyOtherDay_def Let_def
        hasRecId_def plusMinutes_diffMinutes localTime_def)
  have "\<exists>blocks'. moveBlock ''a'' (localTime 2024 1 1 9 30) seriesBlocks = Inr blocks'
         \<and> map start blocks'
             = [localTime 2024 1 1 9 30, localTime 2024 1 3 9 30, localTime 2024 1 5 9 0,
                localTime 2024 1 3 12 0]
         \<and> map end' blocks'
             = [localTime 2024 1 1 10 30, localTime 2024 1 3 10 30, localTime 2024 1 5 10 0,
                localTime 2024 1 3 12 45]"
  proof (intro exI conjI)
    show "moveBlock ''a'' (localTime 2024 1 1 9 30) seriesBlocks = Inr blocks'"
      by (rule res)
    show "map start blocks'
        = [localTime 2024 1 1 9 30, localTime 2024 1 3 9 30, localTime 2024 1 5 9 0,
           localTime 2024 1 3 12 0]"
      using ev [OF res] by (rule conjunct1)
    show "map end' blocks'
        = [localTime 2024 1 1 10 30, localTime 2024 1 3 10 30, localTime 2024 1 5 10 0,
           localTime 2024 1 3 12 45]"
      using ev [OF res] by (rule conjunct2)
  qed
  with h1 h2 h3 h4 show ?thesis
    by - (intro conjI, assumption+)
qed

text \<open>
  C9: for every block present in the collection, the interactive \<open>moveBlock\<close> and the
  pipeline's \<open>move_block\<close> take the duration of the block in minutes from its stored
  start and end (a whole number when these are whole minutes apart) and set the new end
  to the new start plus that duration, so that the distance from start to end is the
  same after the move.
\<close>

theorem move_keeps_duration:
  assumes idx: "findIndex (\<lambda>x. block_id x = bid) blocks = Some i"
    and st: "st_blocks st = blocks"
  shows "(\<exists>blocks'. moveBlock bid newStart blocks = Inr blocks'
            \<and> start (blocks' ! i) = newStart
            \<and> end' (blocks' ! i)
                = plusMinutes newStart (diffMinutes (end' (blocks ! i)) (start (blocks ! i)))
            \<and> end' (blocks' ! i) - start (blocks' ! i) = end' (blocks ! i) - start (blocks ! i))
       \<and> (\<exists>st'. applyCommand env cid (move_block bid newStart) st = Inr st'
            \<and> start (st_blocks st' ! i) = newStart
            \<and> end' (st_blocks st' ! i)
                = plusMinutes newStart (diffMinutes (end' (blocks ! i)) (start (blocks ! i)))
            \<and> end' (st_blocks st' ! i) - start (st_blocks st' ! i)
                = end' (blocks ! i) - start (blocks ! i))
       \<and> (MS_PER_MINUTE dvd end' (blocks ! i) - start (blocks ! i) \<longrightarrow>
            diffMinutes (end' (blocks ! i)) (start (blocks ! i))
              = of_int ((end' (blocks ! i) - start (blocks ! i)) div MS_PER_MINUTE))"
proof -
  from findIndex_Some [OF idx] have i: "i < length blocks"
    by auto
  from moveBlock_moved [OF idx, of newStart] have a: "\<exists>blocks'. moveBlock bid newStart blocks = Inr blocks'
            \<and> start (blocks' ! i) = newStart
            \<and> end' (blocks' ! i)
                = plusMinutes newStart (diffMinutes (end' (blocks ! i)) (start (blocks ! i)))
            \<and> end' (blocks' ! i) - start (blocks' ! i) = end' (blocks ! i) - start (blocks ! i)"
    by (auto simp: plusMinutes_diffMinutes)
  have b: "\<exists>st'. applyCommand env cid (move_block bid newStart) st = Inr st'
            \<and> start (st_blocks st' ! i) = newStart
            \<and> end' (st_blocks st' ! i)
                = plusMinutes newStart (diffMinutes (end' (blocks ! i)) (start (blocks ! i)))
            \<and> end' (st_blocks st' ! i) - start (st_blocks st' ! i)
                = end' (blocks ! i) - start (blocks ! i)"
    using idx st i by (simp add: Let_def push_def plusMinutes_diffMinutes)
  from a b diffMinutes_whole show ?thesis by blast
qed

theorem move_keeps_duration_witness:
  "findIndex (\<lambda>x. block_id x = ''x'') seriesBlocks = Some 3
   \<and> (\<exists>blocks'. moveBlock ''x'' (localTime 2024 1 4 8 0) seriesBlocks = Inr blocks'
         \<and> start (blocks' ! 3) = localTime 2024 1 4 8 0
         \<and> end' (blocks' ! 3) = localTime 2024 1 4 8 45)"
proof -
  have h: "findIndex (\<lambda>x. block_id x = ''x'') seriesBlocks = Some 3"
    by (simp add: seriesBlocks_def mkBlock_def)
  have st: "st_blocks \<lparr>st_tasks = [], st_blocks = seriesBlocks, st_out = [], st_tick = 0\<rparr>
      = seriesBlocks"
    by simp
  have e: "plusMinutes (localTime 2024 1 4 8 0)
       (diffMinutes (end' (seriesBlocks ! 3)) (start (seriesBlocks ! 3))) = localTime 2024 1 4 8 45"
    by (simp add: plusMinutes_diffMinutes seriesBlocks_def mkBlock_def localTime_def)
  from move_keeps_duration [OF h st, of "localTime 2024 1 4 8 0"] h e show ?thesis
    by auto
qed

subsection \<open>Deleting one occurrence of a series\<close>

lemma set_splice1: "set (splice1 idx xs) \<subseteq> set xs"
  unfolding splice1_def using set_take_subset [of idx xs] set_drop_subset [of "Suc idx" xs]
  by auto

lemma length_splice1: "idx < length xs \<Longrightarrow> length (splice1 idx xs) = length xs - 1"
  by (auto simp: splice1_def)

lemma hasRecId_Some: "hasRecId recId b \<longleftrightarrow> (\<exists>rb. recurrence b = Some rb \<and> rid rb = recId)"
  by (cases "recurrence b") (simp_all add: hasRecId_def)

lemma find_filter_Cons: "find P xs = Some x \<Longrightarrow> \<exists>rest. filter P xs = x # rest"
  by (induction xs) (auto split: if_splits)

text \<open>
  C3, as stated: deleting one occurrence adds exactly the date of the deleted block to the
  exceptions of every remaining member. It fails when the members carry different
  exceptions: with 01-07 excepted on \<open>a\<close> and \<open>b\<close> and 01-09 on \<open>c\<close>, deleting \<open>b\<close>
  (01-03) leaves \<open>c\<close> with 01-07 and 01-03; it loses 01-09 and gains 01-07.
\<close>

theorem deleteBlock_single_divergent:
  "deleteBlock ''b'' Single divergentBlocks
     = Inr [(mkBlock ''a'' (localTime 2024 1 1 9 0) (localTime 2024 1 1 10 0) Planned
               (Some (everyOtherDay\<lparr>exceptions := [daysFromCivil 2024 1 7,
                                                    daysFromCivil 2024 1 3]\<rparr>)))\<lparr>rev := 2\<rparr>,
            (mkBlock ''c'' (localTime 2024 1 5 9 0) (localTime 2024 1 5 10 0) Planned
               (Some (everyOtherDay\<lparr>exceptions := [daysFromCivil 2024 1 7,
                                                    daysFromCivil 2024 1 3]\<rparr>)))\<lparr>rev := 2\<rparr>]
   \<and> recurrence (divergentBlocks ! 2)
       = Some (everyOtherDay\<lparr>exceptions := [daysFromCivil 2024 1 9]\<rparr>)"
proof -
  have day: "toISODate (localTime 2024 1 3 9 0) = daysFromCivil 2024 1 3"
    by (simp add: toISODate_def localTime_def fromISODate_def daysFromCivil_def MS_PER_DAY_def
        MS_PER_MINUTE_def)
  have d: "daysFromCivil 2024 1 3 \<noteq> daysFromCivil 2024 1 7"
    by (simp add: daysFromCivil_def)
  show ?thesis
    using d
    by (simp add: deleteBlock_def divergentBlocks_def mkBlock_def everyOtherDay_def Let_def
        hasRecId_def splice1_def cloneRecurrence_def day)
qed

text \<open>
  C3, amended: for every block that belongs to a series with at least one other member,
  deleting it with scope \<open>single\<close> removes exactly that block from the collection and
  keeps every other block in place; every remaining member of the series receives the
  rule of the first remaining member, with the ISO date of the deleted block's start
  added to that rule's exceptions (and its revision counter goes up by one), so that
  exactly this date is added on every member that carried the same exceptions as the
  first; blocks outside the series are unchanged.
\<close>

theorem deleteBlock_single:
  assumes idx: "findIndex (\<lambda>b. block_id b = bid) blocks = Some idx"
    and rec: "recurrence (blocks ! idx) = Some r"
    and rid: "rid r \<noteq> []"
    and first: "find (hasRecId (rid r)) (splice1 idx blocks) = Some o0"
    and r0: "recurrence o0 = Some r0"
  shows "\<exists>blocks'. deleteBlock bid Single blocks = Inr blocks'
           \<and> length blocks' = length blocks - 1
           \<and> map block_id blocks' = map block_id (splice1 idx blocks)
           \<and> (\<forall>j<length blocks'.
                (hasRecId (rid r) (splice1 idx blocks ! j) \<longrightarrow>
                   (\<exists>ro ro'. recurrence (splice1 idx blocks ! j) = Some ro
                      \<and> recurrence (blocks' ! j) = Some ro'
                      \<and> rid ro' = rid r
                      \<and> ro' = (if toISODate (start (blocks ! idx)) \<in> set (exceptions r0) then r0
                               else r0\<lparr>exceptions :=
                                         exceptions r0 @ [toISODate (start (blocks ! idx))]\<rparr>)
                      \<and> set (exceptions ro')
                          = insert (toISODate (start (blocks ! idx))) (set (exceptions r0))
                      \<and> (set (exceptions ro) = set (exceptions r0) \<longrightarrow>
                            set (exceptions ro')
                              = insert (toISODate (start (blocks ! idx))) (set (exceptions ro))))
                   \<and> blocks' ! j
                       = (splice1 idx blocks ! j)
                           \<lparr>recurrence := recurrence (blocks' ! j),
                            rev := rev (splice1 idx blocks ! j) + 1\<rparr>)
              \<and> (\<not> hasRecId (rid r) (splice1 idx blocks ! j) \<longrightarrow>
                   blocks' ! j = splice1 idx blocks ! j))"
proof -
  from findIndex_Some [OF idx] have i: "idx < length blocks"
    by auto
  define blocks1 where "blocks1 = splice1 idx blocks"
  define dateISO where "dateISO = toISODate (start (blocks ! idx))"
  from find_filter_Cons [OF first]
  obtain rest where others: "filter (hasRecId (rid r)) blocks1 = o0 # rest"
    by (auto simp: blocks1_def)
  then have "o0 \<in> set (filter (hasRecId (rid r)) blocks1)"
    by simp
  then have "hasRecId (rid r) o0"
    by simp
  with r0 have r0id: "rid r0 = rid r"
    by (simp add: hasRecId_def)
  define r1 where "r1 = (if dateISO \<in> set (exceptions r0) then r0
      else r0\<lparr>exceptions := exceptions r0 @ [dateISO]\<rparr>)"
  have r1: "rid r1 = rid r" "set (exceptions r1) = insert dateISO (set (exceptions r0))"
    using r0id by (auto simp: r1_def)
  define g where "g = (\<lambda>other. if hasRecId (rid r) other then
      other\<lparr>recurrence := cloneRecurrence (Some r1), rev := rev other + 1\<rparr> else other)"
  have res: "deleteBlock bid Single blocks = Inr (map g blocks1)"
    unfolding deleteBlock_def g_def r1_def dateISO_def
    using idx rec rid others r0 by (simp add: Let_def blocks1_def [symmetric])
  have len: "length (map g blocks1) = length blocks - 1"
    using i by (simp add: blocks1_def length_splice1)
  have ids: "map block_id (map g blocks1) = map block_id blocks1"
    by (simp add: g_def)
  have each: "(hasRecId (rid r) (blocks1 ! j) \<longrightarrow>
         (\<exists>ro ro'. recurrence (blocks1 ! j) = Some ro
            \<and> recurrence (map g blocks1 ! j) = Some ro'
            \<and> rid ro' = rid r
            \<and> ro' = r1
            \<and> set (exceptions ro') = insert dateISO (set (exceptions r0))
            \<and> (set (exceptions ro) = set (exceptions r0) \<longrightarrow>
                  set (exceptions ro') = insert dateISO (set (exceptions ro))))
         \<and> map g blocks1 ! j
             = (blocks1 ! j)\<lparr>recurrence := recurrence (map g blocks1 ! j),
                             rev := rev (blocks1 ! j) + 1\<rparr>)
       \<and> (\<not> hasRecId (rid r) (blocks1 ! j) \<longrightarrow> map g blocks1 ! j = blocks1 ! j)"
    if j: "j < length (map g blocks1)" for j
  proof (cases "hasRecId (rid r) (blocks1 ! j)")
    case True
    then obtain ro where ro: "recurrence (blocks1 ! j) = Some ro" "rid ro = rid r"
      by (auto simp: hasRecId_Some)
    with True r1 j show ?thesis
      by (simp add: g_def cloneRecurrence_id)
  next
    case False
    with j show ?thesis by (simp add: g_def)
  qed
  from res len ids each show ?thesis
    unfolding blocks1_def [symmetric] dateISO_def [symmetric] r1_def [symmetric] by blast
qed

theorem deleteBlock_single_witness:
  "findIndex (\<lambda>b. block_id b = ''b'') seriesBlocks = Some 1
   \<and> recurrence (seriesBlocks ! 1) = Some everyOtherDay
   \<and> rid everyOtherDay \<noteq> []
   \<and> find (hasRecId (rid everyOtherDay)) (splice1 1 seriesBlocks) = Some (seriesBlocks ! 0)
   \<and> recurrence (seriesBlocks ! 0) = Some everyOtherDay
   \<and> (\<exists>blocks'. deleteBlock ''b'' Single seriesBlocks = Inr blocks'
         \<and> map block_id blocks' = [''a'', ''c'', ''x'']
         \<and> map (\<lambda>b. map_option exceptions (recurrence b)) blocks'
             = [Some [daysFromCivil 2024 1 3], Some [daysFromCivil 2024 1 3], None])"
proof -
  have h1: "findIndex (\<lambda>b. block_id b = ''b'') seriesBlocks = Some 1"
    by (simp add: seriesBlocks_def mkBlock_def)
  have h2: "recurrence (seriesBlocks ! 1) = Some everyOtherDay"
    by (simp add: seriesBlocks_def mkBlock_def)
  have h3: "rid everyOtherDay \<noteq> []"
    by (simp add: everyOtherDay_def)
  have h4: "find (hasRecId (rid everyOtherDay)) (splice1 1 seriesBlocks) = Some (seriesBlocks ! 0)"
    by (simp add: seriesBlocks_def mkBlock_def splice1_def hasRecId_def)
  have h5: "recurrence (seriesBlocks ! 0) = Some everyOtherDay"
    by (simp add: seriesBlocks_def mkBlock_def)
  from deleteBlock_single [OF h1 h2 h3 h4 h5]
  obtain blocks' where res: "deleteBlock ''b'' Single seriesBlocks = Inr blocks'"
    by blast
  have day: "toISODate (localTime 2024 1 3 9 0) = daysFromCivil 2024 1 3"
    by (simp add: toISODate_def localTime_def fromISODate_def daysFromCivil_def MS_PER_DAY_def
        MS_PER_MINUTE_def)
  have ev: "map block_id blocks' = [''a'', ''c'', ''x'']
      \<and> map (\<lambda>b. map_option exceptions (recurrence b)) blocks'
          = [Some [daysFromCivil 2024 1 3], Some [daysFromCivil 2024 1 3], None]"
    using res
    by (auto simp: deleteBlock_def seriesBlocks_def mkBlock_def everyOtherDay_def Let_def
        hasRecId_def splice1_def cloneRecurrence_def day)
  have "\<exists>blocks'. deleteBlock ''b'' Single seriesBlocks = Inr blocks'
         \<and> map block_id blocks' = [''a'', ''c'', ''x'']
         \<and> map (\<lambda>b. map_option exceptions (recurrence b)) blocks'
             = [Some [daysFromCivil 2024 1 3], Some [daysFromCivil 2024 1 3], None]"
  proof (intro exI conjI)
    show "deleteBlock ''b'' Single seriesBlocks = Inr blocks'"
      by (rule res)
    show "map block_id blocks' = [''a'', ''c'', ''x'']"
      using ev by (rule conjunct1)
    show "map (\<lambda>b. map_option exceptions (recurrence b)) blocks'
        = [Some [daysFromCivil 2024 1 3], Some [daysFromCivil 2024 1 3], None]"
      using ev by (rule conjunct2)
  qed
  with h1 h2 h3 h4 h5 show ?thesis
    by - (intro conjI, assumption+)
qed

subsection \<open>The command pipeline\<close>





















subsection \<open>Skipping an unchanged batch\<close>

lemma showNat_nonempty: "showNat n \<noteq> []"
  by (subst showNat.simps) simp

lemma signature_nonempty: "raw \<noteq> [] \<Longrightarrow> signature raw \<noteq> []"
  by (simp add: signature_def showNat_nonempty)

lemma onApplyCommands_lastSig:
  assumes "raw \<noteq> []"
    and "onApplyCommands env parseJSONL loadBlocks (Inr raw) app = Inr app1"
  shows "lastSig app1 = signature raw"
proof (cases "signature raw = lastSig app")
  case True
  with assms signature_nonempty [OF assms(1)] show ?thesis
    by (auto simp: onApplyCommands_def Let_def)
next
  case False
  with assms signature_nonempty [OF assms(1)] show ?thesis
    by (auto simp: onApplyCommands_def Let_def split: sum.splits prod.splits)
qed

text \<open>
  C4: for every non-empty inbox content the signature is the length of the content,
  a colon and the rolling hash of the content. When it equals the last applied
  signature, \<open>onApplyCommands\<close> changes nothing but the message shown: no command is
  applied and the stored tasks and blocks are as before. After a run that applied a
  batch, a second run on the same content is skipped in this way.
\<close>

theorem unchanged_batch_is_skipped:
  assumes "raw \<noteq> []"
  shows "signature raw = showNat (length raw) @ '':'' @ hashStr raw
       \<and> (lastSig app = signature raw \<longrightarrow>
            onApplyCommands env parseJSONL loadBlocks (Inr raw) app
              = Inr (app\<lparr>msg := UpToDateSkipped\<rparr>))
       \<and> (onApplyCommands env parseJSONL loadBlocks (Inr raw) app = Inr app1 \<longrightarrow>
            onApplyCommands env' parseJSONL' loadBlocks' (Inr raw) app1
              = Inr (app1\<lparr>msg := UpToDateSkipped\<rparr>))"
proof -
  have a: "signature raw = showNat (length raw) @ '':'' @ hashStr raw"
    using assms by (simp add: signature_def)
  have skip: "onApplyCommands e p l (Inr raw) s = Inr (s\<lparr>msg := UpToDateSkipped\<rparr>)"
    if "lastSig s = signature raw" for e p l s
    using that signature_nonempty [OF assms]
    by (simp add: onApplyCommands_def Let_def)
  from a skip onApplyCommands_lastSig [OF assms] show ?thesis
    by blast
qed

theorem unchanged_batch_is_skipped_witness:
  "exRaw \<noteq> []
   \<and> signature exRaw = ''7:-1442153986''
   \<and> lastSig exApp = signature exRaw
   \<and> onApplyCommands exEnv (\<lambda>raw. Some exBatch) (\<lambda>blocks. blocks) (Inr exRaw) exApp
       = Inr (exApp\<lparr>msg := UpToDateSkipped\<rparr>)"
proof -
  have h: "exRaw \<noteq> []"
    by (simp add: exRaw_def)
  have s: "signature exRaw = ''7:-1442153986''"
    by (simp add: exRaw_def signature_def hashStr_def showInt_def digit_def)
  have l: "lastSig exApp = signature exRaw"
    unfolding s by (simp add: exApp_def)
  from unchanged_batch_is_skipped [OF h, of exApp exEnv "\<lambda>raw. Some exBatch" "\<lambda>blocks. blocks"] l
  have "onApplyCommands exEnv (\<lambda>raw. Some exBatch) (\<lambda>blocks. blocks) (Inr exRaw) exApp
       = Inr (exApp\<lparr>msg := UpToDateSkipped\<rparr>)"
    by blast
  with h s l show ?thesis
    by - (intro conjI, assumption+)
qed

subsection \<open>Releasing a drag\<close>

lemmas time_defs = localTime_def fromISODate_def daysFromCivil_def toISODate_def
  minutesSinceMidnight_def hour_def minute_def MS_PER_DAY_def MS_PER_MINUTE_def
  MINUTES_PER_DAY_def SNAP_MIN_def

lemma morning_dayBlocks: "dayBlocks exDays morningBlocks 0 = Inr morningBlocks"
  by (simp add: dayBlocks_def nthDay_def byDay_def exDays_def morningBlocks_def mkBlock_def
      time_defs)

text \<open>
  C1 asks that the scan for the next gap leave out the moved block itself. The scan of
  \<open>findNextGap\<close> runs over all blocks of the day. With siblings at 09:00-10:00 and
  11:00-12:00 and the moved 60-minute block at 10:00-11:00, a proposal at 09:30 overlaps
  the first sibling; the block's own slot at 10:00 overlaps no sibling, yet the scan
  passes over it and the block is moved to 12:00.
\<close>

theorem push_counts_moved_block_as_occupied:
  "computeOverlap exDays morningBlocks 0 ''b'' 570 630 = Inr True
   \<and> findNextGap exDays morningBlocks 0 570 60 = Inr 720
   \<and> onUp exDays morningBlocks StrategyPush (Some pushDrag)
       = Inr [onMove ''b'' (localTime 2024 1 1 12 0)]
   \<and> computeOverlap exDays morningBlocks 0 ''b'' 600 660 = Inr False"
proof -
  have ov: "computeOverlap exDays morningBlocks 0 ''b'' 570 630 = Inr True"
    unfolding computeOverlap_def morning_dayBlocks
    by (simp add: morningBlocks_def mkBlock_def overlaps_def time_defs)
  have free: "computeOverlap exDays morningBlocks 0 ''b'' 600 660 = Inr False"
    unfolding computeOverlap_def morning_dayBlocks
    by (simp add: morningBlocks_def mkBlock_def overlaps_def time_defs)
  have gap: "findNextGap exDays morningBlocks 0 570 60 = Inr 720"
    unfolding findNextGap_def morning_dayBlocks
    by (simp add: morningBlocks_def mkBlock_def toItem_def time_defs)
  have day: "nthDay exDays 0 = Some (localTime 2024 1 1 0 0)"
    by (simp add: nthDay_def exDays_def)
  have up: "onUp exDays morningBlocks StrategyPush (Some pushDrag)
       = Inr [onMove ''b'' (localTime 2024 1 1 12 0)]"
    using ov gap day
    by (simp add: onUp_def pushDrag_def Let_def isoForDateAndMinutes_def plusMinutes_int
        clamp_def startOfDay_def time_defs)
  from ov gap up free show ?thesis
    by - (intro conjI, assumption+)
qed

text \<open>
  When the moved block comes from another day, the same proposal is placed at 10:00, the
  first gap of 60 minutes at or after 09:30.
\<close>

lemma push_from_another_day:
  "onUp exDays otherDayBlocks StrategyPush (Some (pushDrag\<lparr>originalDay := 1\<rparr>))
     = Inr [onMove ''b'' (localTime 2024 1 1 10 0)]"
proof -
  have bs: "dayBlocks exDays otherDayBlocks 0 = Inr [otherDayBlocks ! 0, otherDayBlocks ! 2]"
    by (simp add: dayBlocks_def nthDay_def byDay_def exDays_def otherDayBlocks_def mkBlock_def
        time_defs)
  have ov: "computeOverlap exDays otherDayBlocks 0 ''b'' 570 630 = Inr True"
    unfolding computeOverlap_def bs
    by (simp add: otherDayBlocks_def mkBlock_def overlaps_def time_defs)
  have gap: "findNextGap exDays otherDayBlocks 0 570 60 = Inr 600"
    unfolding findNextGap_def bs
    by (simp add: otherDayBlocks_def mkBlock_def toItem_def time_defs)
  have day: "nthDay exDays 0 = Some (localTime 2024 1 1 0 0)"
    by (simp add: nthDay_def exDays_def)
  show ?thesis
    using ov gap day
    by (simp add: onUp_def pushDrag_def Let_def isoForDateAndMinutes_def plusMinutes_int
        clamp_def startOfDay_def time_defs)
qed

lemma foldl_clip_Min:
  "foldl (\<lambda>limit it. if P it then min limit (it_s it) else limit) eM items
     = Min (insert eM (it_s ` {it \<in> set items. P it}))"
proof (induction items arbitrary: eM)
  case Nil
  show ?case by simp
next
  case (Cons x xs)
  show ?case
  proof (cases "P x")
    case True
    have fin: "finite (it_s ` {it \<in> set xs. P it})" by simp
    have "{it \<in> set (x # xs). P it} = insert x {it \<in> set xs. P it}"
      using True by auto
    then have "Min (insert eM (it_s ` {it \<in> set (x # xs). P it}))
        = Min (insert eM (insert (it_s x) (it_s ` {it \<in> set xs. P it})))"
      by simp
    also have "\<dots> = min eM (Min (insert (it_s x) (it_s ` {it \<in> set xs. P it})))"
      using fin by (subst Min_insert) simp_all
    also have "\<dots> = Min (insert (min eM (it_s x)) (it_s ` {it \<in> set xs. P it}))"
    proof (cases "it_s ` {it \<in> set xs. P it} = {}")
      case True
      show ?thesis by (simp only: True Min_singleton)
    next
      case False
      with fin show ?thesis
        by (simp add: min.assoc)
    qed
    finally show ?thesis
      using True Cons.IH [of "min eM (it_s x)"] by simp
  next
    case False
    then have "{it \<in> set (x # xs). P it} = {it \<in> set xs. P it}"
      by auto
    with False Cons.IH [of eM] show ?thesis by simp
  qed
qed

lemma nthDay_dayBlocks:
  assumes "nthDay days i = Some day"
  shows "dayBlocks days blocks i
     = Inr (sort_key start (filter (\<lambda>b. toISODate (start b) = toISODate day) blocks))"
proof -
  from assms have "day \<in> set days"
    by (auto simp: nthDay_def split: if_splits)
  with assms show ?thesis
    by (simp add: dayBlocks_def byDay_def)
qed

lemma resizeBlock_start:
  assumes "resizeBlock bid newEnd blocks = Inr blocks'"
  shows "map start blocks' = map start blocks"
proof (cases "findIndex (\<lambda>x. block_id x = bid) blocks")
  case None
  with assms show ?thesis by (simp add: resizeBlock_def)
next
  case (Some i)
  from findIndex_Some [OF Some] have i: "i < length blocks" by simp
  have upd: "map start (blocks[i := b]) = map start blocks" if "start b = start (blocks ! i)" for b
    using that i by (simp add: map_update list_update_same_conv)
  have mp: "map start (map f xs) = map start xs" if "\<And>x. start (f x) = start x"
    for f :: "Block \<Rightarrow> Block" and xs
    using that by simp
  show ?thesis
  proof (cases "recurrence (blocks ! i)")
    case None
    with assms Some have "blocks' = blocks[i := (blocks ! i)\<lparr>end' := newEnd, rev := rev (blocks ! i) + 1\<rparr>]"
      by (simp add: resizeBlock_def Let_def)
    then show ?thesis by (simp add: upd)
  next
    case r: (Some r)
    show ?thesis
    proof (cases "rid r = []")
      case True
      with assms Some r
      have "blocks' = blocks[i := (blocks ! i)\<lparr>end' := newEnd, rev := rev (blocks ! i) + 1\<rparr>]"
        by (simp add: resizeBlock_def Let_def)
      then show ?thesis by (simp add: upd)
    next
      case False
      define newDur where "newDur = diffMinutes newEnd (start (blocks ! i))"
      define b2 where "b2 = (blocks ! i)\<lparr>end' := newEnd, rev := rev (blocks ! i) + 1,
          recurrence := Some (r\<lparr>duration := newDur\<rparr>)\<rparr>"
      define f where "f = (\<lambda>other. if block_id other = bid then other
          else if hasRecId (rid r) other \<and> status other \<noteq> Done then
            other\<lparr>end' := plusMinutes (start other) newDur,
                  recurrence := cloneRecurrence (Some (r\<lparr>duration := newDur\<rparr>)),
                  rev := rev other + 1\<rparr>
          else other)"
      have "resizeBlock bid newEnd blocks = Inr (map f (blocks[i := b2]))"
        unfolding resizeBlock_def f_def b2_def newDur_def
        using Some r False by (simp add: Let_def)
      with assms have f: "blocks' = map f (blocks[i := b2])"
        "start b2 = start (blocks ! i)"
        "\<And>x. start (f x) = start x"
        by (simp_all add: b2_def f_def)
      have "map start blocks' = map start (blocks[i := b2])"
        unfolding f(1) by (rule mp) (rule f(3))
      also have "\<dots> = map start blocks"
        by (rule upd) (rule f(2))
      finally show ?thesis .
    qed
  qed
qed

lemma early_dayBlocks: "dayBlocks exDays earlyBlocks 0 = Inr earlyBlocks"
  by (simp add: dayBlocks_def nthDay_def byDay_def exDays_def earlyBlocks_def mkBlock_def
      time_defs)

lemma late_dayBlocks: "dayBlocks exDays lateBlocks 0 = Inr lateBlocks"
  by (simp add: dayBlocks_def nthDay_def byDay_def exDays_def lateBlocks_def mkBlock_def
      time_defs)

text \<open>
  C7, as stated: whenever the resize proposal overlaps a sibling, the committed end is
  the least start among the overlapping siblings that start after the block's start
  (bounded below by start plus 15 minutes). It fails when the only overlapping sibling
  starts at or before the block's start: with a sibling at 08:00-09:30 and the block at
  09:00-10:00 resized to 11:00, no start is taken as the limit and 11:00 is committed.
\<close>

theorem clip_resize_keeps_proposed_end:
  "computeOverlap exDays earlyBlocks 0 ''b'' 540 660 = Inr True
   \<and> map toItem earlyBlocks
       = [\<lparr>it_s = 480, it_e = 570, it_id = ''s''\<rparr>, \<lparr>it_s = 540, it_e = 600, it_id = ''b''\<rparr>]
   \<and> clipEndToFirstConflict exDays earlyBlocks 0 ''b'' 540 660 = Inr 660
   \<and> onUp exDays earlyBlocks StrategyClip (Some (resizeDrag 600))
       = Inr [onResize ''b'' (localTime 2024 1 1 11 0)]"
proof -
  have ov: "computeOverlap exDays earlyBlocks 0 ''b'' 540 660 = Inr True"
    unfolding computeOverlap_def early_dayBlocks
    by (simp add: earlyBlocks_def mkBlock_def overlaps_def time_defs)
  have items: "map toItem earlyBlocks
       = [\<lparr>it_s = 480, it_e = 570, it_id = ''s''\<rparr>, \<lparr>it_s = 540, it_e = 600, it_id = ''b''\<rparr>]"
    by (simp add: earlyBlocks_def mkBlock_def toItem_def time_defs)
  have clip: "clipEndToFirstConflict exDays earlyBlocks 0 ''b'' 540 660 = Inr 660"
    unfolding clipEndToFirstConflict_def early_dayBlocks
    by (simp add: earlyBlocks_def mkBlock_def toItem_def overlaps_def time_defs)
  have day: "nthDay exDays 0 = Some (localTime 2024 1 1 0 0)"
    by (simp add: nthDay_def exDays_def)
  have up: "onUp exDays earlyBlocks StrategyClip (Some (resizeDrag 600))
       = Inr [onResize ''b'' (localTime 2024 1 1 11 0)]"
    using ov clip day
    by (simp add: onUp_def resizeDrag_def Let_def isoForDateAndMinutes_def plusMinutes_int
        clamp_def startOfDay_def time_defs)
  from ov items clip up show ?thesis
    by - (intro conjI, assumption+)
qed

text \<open>
  C7, amended: under the \<open>clip\<close> policy, for every resize released over the block's own
  day whose proposal overlaps a sibling there, the committed end minute is the least of
  the proposed end and the start minutes of the overlapping siblings that start strictly
  after the block's start, bounded below by start plus 15 minutes and clamped to the
  day; it stays at the proposed end when no overlapping sibling starts later. The only
  call is the resize, and a resize changes no start.
\<close>

theorem clip_resize_end:
  assumes md: "mode d = ResizeMode"
    and same: "targetDay d = originalDay d"
    and day: "nthDay days (originalDay d) = Some day"
    and ov: "computeOverlap days blocks (targetDay d) (drag_id d) (previewStartM d) (previewEndM d)
               = Inr True"
  shows "onUp days blocks StrategyClip (Some d)
           = Inr [onResize (drag_id d)
                    (isoForDateAndMinutes (startOfDay day)
                       (max (Min (insert (previewEndM d)
                                   {minutesSinceMidnight (start b) | b.
                                      b \<in> set blocks \<and> toISODate (start b) = toISODate day
                                      \<and> block_id b \<noteq> drag_id d
                                      \<and> overlaps (startM d) (previewEndM d)
                                            (minutesSinceMidnight (start b))
                                            (minutesSinceMidnight (end' b))
                                      \<and> startM d < minutesSinceMidnight (start b)}))
                            (startM d + 15)))]
         \<and> (\<forall>newEnd blocks0 blocks'.
               resizeBlock (drag_id d) newEnd blocks0 = Inr blocks'
                 \<longrightarrow> map start blocks' = map start blocks0)"
proof -
  let ?P = "\<lambda>it. overlaps (startM d) (previewEndM d) (it_s it) (it_e it) \<and> startM d < it_s it"
  let ?bs = "sort_key start (filter (\<lambda>b. toISODate (start b) = toISODate day) blocks)"
  let ?items = "map toItem (filter (\<lambda>b. block_id b \<noteq> drag_id d) ?bs)"
  have clip: "clipEndToFirstConflict days blocks (originalDay d) (drag_id d) (startM d) (previewEndM d)
      = Inr (Min (insert (previewEndM d) (it_s ` {it \<in> set ?items. ?P it})))"
    unfolding clipEndToFirstConflict_def nthDay_dayBlocks [OF day] Let_def
    by (simp add: foldl_clip_Min [of ?P])
  have sets: "it_s ` {it \<in> set ?items. ?P it}
      = {minutesSinceMidnight (start b) | b.
           b \<in> set blocks \<and> toISODate (start b) = toISODate day
           \<and> block_id b \<noteq> drag_id d
           \<and> overlaps (startM d) (previewEndM d)
                 (minutesSinceMidnight (start b)) (minutesSinceMidnight (end' b))
           \<and> startM d < minutesSinceMidnight (start b)}"
    by (force simp: toItem_def image_iff)
  have iso: "fromISODate (toISODate day) = startOfDay day"
    by (simp add: fromISODate_def startOfDay_eq)
  have up: "onUp days blocks StrategyClip (Some d)
      = Inr [onResize (drag_id d)
               (isoForDateAndMinutes (startOfDay day)
                  (max (Min (insert (previewEndM d) (it_s ` {it \<in> set ?items. ?P it})))
                       (startM d + 15)))]"
    using md day ov clip
    by (simp add: onUp_def Let_def iso SNAP_MIN_def same)
  from up resizeBlock_start show ?thesis
    unfolding sets by blast
qed

theorem clip_resize_end_witness:
  "mode (resizeDrag 570) = ResizeMode
   \<and> targetDay (resizeDrag 570) = originalDay (resizeDrag 570)
   \<and> nthDay exDays (originalDay (resizeDrag 570)) = Some (localTime 2024 1 1 0 0)
   \<and> computeOverlap exDays lateBlocks 0 ''b'' 540 660 = Inr True
   \<and> onUp exDays lateBlocks StrategyClip (Some (resizeDrag 570))
       = Inr [onResize ''b'' (localTime 2024 1 1 10 0)]
   \<and> isoForDateAndMinutes (startOfDay (localTime 2024 1 1 0 0))
        (max (Min (insert 660
                    {minutesSinceMidnight (start b) | b.
                       b \<in> set lateBlocks
                       \<and> toISODate (start b) = toISODate (localTime 2024 1 1 0 0)
                       \<and> block_id b \<noteq> ''b''
                       \<and> overlaps 540 660 (minutesSinceMidnight (start b))
                             (minutesSinceMidnight (end' b))
                       \<and> 540 < minutesSinceMidnight (start b)}))
             (540 + 15))
       = localTime 2024 1 1 10 0"
proof -
  have h1: "mode (resizeDrag 570) = ResizeMode"
    and h2: "targetDay (resizeDrag 570) = originalDay (resizeDrag 570)"
    by (simp_all add: resizeDrag_def)
  have h3: "nthDay exDays (originalDay (resizeDrag 570)) = Some (localTime 2024 1 1 0 0)"
    by (simp add: nthDay_def exDays_def resizeDrag_def)
  have ov: "computeOverlap exDays lateBlocks 0 ''b'' 540 660 = Inr True"
    unfolding computeOverlap_def late_dayBlocks
    by (simp add: lateBlocks_def mkBlock_def overlaps_def time_defs)
  have h4: "computeOverlap exDays lateBlocks (targetDay (resizeDrag 570)) (drag_id (resizeDrag 570))
      (previewStartM (resizeDrag 570)) (previewEndM (resizeDrag 570)) = Inr True"
    using ov by (simp add: resizeDrag_def)
  have clip: "clipEndToFirstConflict exDays lateBlocks 0 ''b'' 540 660 = Inr 600"
    unfolding clipEndToFirstConflict_def late_dayBlocks
    by (simp add: lateBlocks_def mkBlock_def toItem_def overlaps_def time_defs)
  have day: "nthDay exDays 0 = Some (localTime 2024 1 1 0 0)"
    by (simp add: nthDay_def exDays_def)
  have up: "onUp exDays lateBlocks StrategyClip (Some (resizeDrag 570))
       = Inr [onResize ''b'' (localTime 2024 1 1 10 0)]"
    using ov clip day
    by (simp add: onUp_def resizeDrag_def Let_def isoForDateAndMinutes_def plusMinutes_int
        clamp_def startOfDay_def time_defs)
  note formula = clip_resize_end [OF h1 h2 h3 h4, THEN conjunct1, unfolded up]
  from formula have eq: "isoForDateAndMinutes (startOfDay (localTime 2024 1 1 0 0))
        (max (Min (insert 660
                    {minutesSinceMidnight (start b) | b.
                       b \<in> set lateBlocks
                       \<and> toISODate (start b) = toISODate (localTime 2024 1 1 0 0)
                       \<and> block_id b \<noteq> ''b''
                       \<and> overlaps 540 660 (minutesSinceMidnight (start b))
                             (minutesSinceMidnight (end' b))
                       \<and> 540 < minutesSinceMidnight (start b)}))
             (540 + 15))
       = localTime 2024 1 1 10 0"
    by (simp add: resizeDrag_def)
  from h1 h2 h3 ov up eq show ?thesis
    by - (intro conjI, assumption+)
qed

end
